theory Spec2Isabelle
  imports Main
begin

section \<open>Data model\<close>

text \<open>
  A post of the feed, as \<^verbatim>\<open>run_bot\<close> and \<^verbatim>\<open>get_posts_deep\<close> read it: the keys
  \<^verbatim>\<open>id\<close>, \<^verbatim>\<open>ap_id\<close>, \<^verbatim>\<open>deleted\<close> are always there, \<^verbatim>\<open>url\<close> only on link posts
  (\<^verbatim>\<open>'url' in post\<close>). A feed entry wraps a post with its \<^verbatim>\<open>saved\<close> flag.
\<close>

record post =
  id' :: int
  ap_id :: string
  url :: "string option"
  deleted :: bool

record post_view =
  post :: post
  saved :: bool

text \<open>The keyword arguments \<^verbatim>\<open>get_posts_deep\<close> hands to \<^verbatim>\<open>lemmy.post.list\<close>.\<close>

record list_kwargs =
  community_id :: "int option"
  community_name :: "string option"
  sort' :: "string option"
  type_ :: "string option"
  page :: nat

text \<open>The operations that go through \<^verbatim>\<open>safe_api_call\<close>, with their arguments.\<close>

datatype api_request =
    LogIn string string
  | PostList list_kwargs

text \<open>
  The exceptions of a cycle. \<open>Raised\<close> stands for the exceptions of the libraries that
  are instances of \<^verbatim>\<open>Exception\<close>; \<^verbatim>\<open>KeyboardInterrupt\<close> and \<^verbatim>\<open>SystemExit\<close> derive from
  \<^verbatim>\<open>BaseException\<close> only, so \<^verbatim>\<open>except Exception\<close> does not catch them.
\<close>

datatype exn =
    RuntimeError string
  | FileNotFoundError string
  | KeyError string
  | IndexError
  | Raised string
  | KeyboardInterrupt
  | SystemExit

text \<open>\<^verbatim>\<open>isinstance(e, Exception)\<close>.\<close>

fun is_exception :: "exn \<Rightarrow> bool" where
  "is_exception KeyboardInterrupt = False"
| "is_exception SystemExit = False"
| "is_exception _ = True"

datatype level = DEBUG | INFO | WARNING | ERROR

text \<open>One constructor for each logging call of the two source files.\<close>

datatype log_record =
    RetryIn api_request nat
  | Loaded nat
  | BlocklistDomain string string string
  | SummarizeDomain string string string
  | BlockContentType string
  | FailedToProcess string string string exn
  | WillAddComment string string
  | Skipped string int

text \<open>
  The effects of a cycle, in the order they happen: an invocation of the wrapped operation
  inside \<^verbatim>\<open>safe_api_call\<close>, \<^verbatim>\<open>time.sleep\<close>, a logging call, \<^verbatim>\<open>requests.get\<close>,
  \<^verbatim>\<open>scraper.scrape_html\<close> and \<^verbatim>\<open>summary.get_summary\<close>.
\<close>

datatype event =
    Invoke api_request
  | Sleep nat
  | Log level log_record
  | HttpGet string
  | ScrapeHtml string
  | GetSummary string

text \<open>
  The state a cycle works on: the outside world (the remote instance and the network), the
  lines of \<^verbatim>\<open>./assets/processed_posts.txt\<close> (\<open>None\<close> while the file does not exist) and
  the effects so far, oldest first.
\<close>

record 'w state =
  world :: 'w
  posts_log :: "string list option"
  trace :: "event list"

definition emit :: "event \<Rightarrow> 'w state \<Rightarrow> 'w state" where
  "emit e s = s\<lparr>trace := trace s @ [e]\<rparr>"

fun is_invoke :: "event \<Rightarrow> bool" where
  "is_invoke (Invoke _) = True"
| "is_invoke _ = False"

fun sleeps :: "event list \<Rightarrow> nat list" where
  "sleeps [] = []"
| "sleeps (Sleep n # es) = n # sleeps es"
| "sleeps (_ # es) = sleeps es"

definition invocations :: "event list \<Rightarrow> event list" where
  "invocations es = filter is_invoke es"

section \<open>utils/postutils.py\<close>

subsection \<open>safe\_api\_call\<close>

text \<open>
  The \<^verbatim>\<open>while\<close> loop of \<^verbatim>\<open>safe_api_call\<close>. Each round invokes \<open>f\<close> (the walrus
  assignment), and when the response is falsy and \<open>retries < 10\<close> it increments
  \<open>retries\<close>, warns and sleeps \<open>retries * 5\<close> seconds. It returns the last response and
  the final \<open>retries\<close>. \<open>truthy\<close> is Python's truth value of the response.
\<close>

function safe_api_loop ::
  "api_request \<Rightarrow> ('r \<Rightarrow> bool) \<Rightarrow> ('w \<Rightarrow> 'r \<times> 'w) \<Rightarrow> nat \<Rightarrow> 'w state \<Rightarrow> 'r \<times> nat \<times> 'w state" where
  "safe_api_loop req truthy f retries s =
     (let (response, w) = f (world s);
          s1 = emit (Invoke req) (s\<lparr>world := w\<rparr>)
      in if \<not> truthy response \<and> retries < 10
         then let retries' = retries + 1;
                  s2 = emit (Log WARNING (RetryIn req (retries' * 5))) s1;
                  s3 = emit (Sleep (retries' * 5)) s2
              in safe_api_loop req truthy f retries' s3
         else (response, retries, s1))"
  by pat_completeness auto
termination
  by (relation "measure (\<lambda>(req, truthy, f, retries, s). 10 - retries)") auto

definition safe_api_call ::
  "api_request \<Rightarrow> ('r \<Rightarrow> bool) \<Rightarrow> ('w \<Rightarrow> 'r \<times> 'w) \<Rightarrow> 'w state \<Rightarrow> (exn + 'r) \<times> 'w state" where
  "safe_api_call req truthy f s =
     (let (response, retries, s') = safe_api_loop req truthy f 1 s
      in if retries \<ge> 10
         then (Inl (RuntimeError ''Failed to invoke Lemmy API''), s')
         else (Inr response, s'))"

text \<open>Python's truth value of a \<^verbatim>\<open>bool\<close> and of a list.\<close>

definition truthy_bool :: "bool \<Rightarrow> bool" where
  "truthy_bool b = b"

definition truthy_list :: "'a list \<Rightarrow> bool" where
  "truthy_list xs = (xs \<noteq> [])"

text \<open>The world after \<open>k\<close> invocations of the operation \<open>f\<close>.\<close>

fun world_after :: "('w \<Rightarrow> 'r \<times> 'w) \<Rightarrow> nat \<Rightarrow> 'w \<Rightarrow> 'w" where
  "world_after f 0 w = w"
| "world_after f (Suc k) w = world_after f k (snd (f w))"

text \<open>The effects of one failed round whose incremented counter is \<open>k\<close>.\<close>

definition failed_round :: "api_request \<Rightarrow> nat \<Rightarrow> event list" where
  "failed_round req k = [Invoke req, Log WARNING (RetryIn req (k * 5)), Sleep (k * 5)]"

subsection \<open>get\_posts\_deep\<close>

text \<open>
  The client object \<^verbatim>\<open>lemmy\<close> of the pythorhead library: \<^verbatim>\<open>lemmy.log_in\<close> answers a
  truth value, \<^verbatim>\<open>lemmy.post.list\<close> a list of feed entries (falsy when empty).
\<close>

record 'w lemmy =
  log_in :: "string \<Rightarrow> string \<Rightarrow> 'w \<Rightarrow> bool \<times> 'w"
  post_list :: "list_kwargs \<Rightarrow> 'w \<Rightarrow> post_view list \<times> 'w"

text \<open>The two list comprehensions; \<^verbatim>\<open>if saved_only\<close> is false for \<^verbatim>\<open>None\<close>.\<close>

definition kept :: "bool option \<Rightarrow> post_view list \<Rightarrow> post list" where
  "kept saved_only response =
     (if saved_only = Some True
      then map post (filter (\<lambda>v. \<not> deleted (post v) \<and> saved v) response)
      else map post (filter (\<lambda>v. \<not> deleted (post v)) response))"

definition page_kwargs ::
  "int option \<Rightarrow> string option \<Rightarrow> string option \<Rightarrow> string option \<Rightarrow> nat \<Rightarrow> list_kwargs" where
  "page_kwargs cid cname srt lst i =
     \<lparr>community_id = cid, community_name = cname, sort' = srt, type_ = lst, page = i\<rparr>"

text \<open>The body of \<^verbatim>\<open>for i in range(1, 6)\<close>, over the page numbers still to fetch.\<close>

fun get_posts_pages ::
  "'w lemmy \<Rightarrow> int option \<Rightarrow> string option \<Rightarrow> bool option \<Rightarrow> string option \<Rightarrow> string option \<Rightarrow>
   nat list \<Rightarrow> post list \<Rightarrow> 'w state \<Rightarrow> (exn + post list) \<times> 'w state" where
  "get_posts_pages lemmy cid cname saved_only srt lst [] posts s = (Inr posts, s)"
| "get_posts_pages lemmy cid cname saved_only srt lst (i # pgs) posts s =
     (let kw = page_kwargs cid cname srt lst i
      in case safe_api_call (PostList kw) truthy_list (post_list lemmy kw) s of
           (Inl e, s') \<Rightarrow> (Inl e, s')
         | (Inr response, s') \<Rightarrow>
             get_posts_pages lemmy cid cname saved_only srt lst pgs (posts @ kept saved_only response) s')"

definition get_posts_deep ::
  "'w lemmy \<Rightarrow> int option \<Rightarrow> string option \<Rightarrow> bool option \<Rightarrow> string option \<Rightarrow> string option \<Rightarrow>
   'w state \<Rightarrow> (exn + post list) \<times> 'w state" where
  "get_posts_deep lemmy cid cname saved_only srt lst s =
     get_posts_pages lemmy cid cname saved_only srt lst [1..<6] [] s"

section \<open>Python strings\<close>

text \<open>\<^verbatim>\<open>s.startswith(p)\<close>.\<close>

definition startswith :: "string \<Rightarrow> string \<Rightarrow> bool" where
  "startswith s p = (take (length p) s = p)"

text \<open>\<^verbatim>\<open>needle in hay\<close> on strings.\<close>

fun contains :: "string \<Rightarrow> string \<Rightarrow> bool" where
  "contains needle [] = (needle = [])"
| "contains needle (c # cs) = (startswith (c # cs) needle \<or> contains needle cs)"

text \<open>
  \<^verbatim>\<open>s.replace(old, new)\<close> for a non-empty \<open>old\<close>: the occurrences are replaced from left
  to right, and the search goes on after each replaced occurrence.
\<close>

function str_replace :: "string \<Rightarrow> string \<Rightarrow> string \<Rightarrow> string" where
  "str_replace old new [] = []"
| "str_replace old new (c # cs) =
     (if old \<noteq> [] \<and> startswith (c # cs) old
      then new @ str_replace old new (drop (length old) (c # cs))
      else c # str_replace old new cs)"
  by pat_completeness auto
termination
  by (relation "measure (\<lambda>(old, new, s). length s)") (auto simp add: neq_Nil_conv)

text \<open>\<^verbatim>\<open>sep.join(xs)\<close>.\<close>

fun join :: "string \<Rightarrow> string list \<Rightarrow> string" where
  "join sep [] = []"
| "join sep [x] = x"
| "join sep (x # y # ys) = x @ sep @ join sep (y # ys)"

text \<open>\<^verbatim>\<open>s.lower()\<close> on ASCII text (the marker searched for is ASCII).\<close>

definition lower_char :: "char \<Rightarrow> char" where
  "lower_char c =
     (case map_of (zip ''ABCDEFGHIJKLMNOPQRSTUVWXYZ'' ''abcdefghijklmnopqrstuvwxyz'') c of
        None \<Rightarrow> c
      | Some l \<Rightarrow> l)"

definition lower :: "string \<Rightarrow> string" where
  "lower s = map lower_char s"

text \<open>\<^verbatim>\<open>str(n)\<close> for an integer: its decimal digits, with a sign when negative.\<close>

function str_nat :: "nat \<Rightarrow> string" where
  "str_nat n =
     (if n < 10 then [''0123456789'' ! n]
      else str_nat (n div 10) @ [''0123456789'' ! (n mod 10)])"
  by pat_completeness auto
termination
  by (relation "measure (\<lambda>n. n)") auto

definition str_int :: "int \<Rightarrow> string" where
  "str_int i = (if i < 0 then CHR ''-'' # str_nat (nat (- i)) else str_nat (nat i))"

text \<open>
  \<^verbatim>\<open>TEMPLATE\<close> is read from \<^verbatim>\<open>./templates/en.txt\<close>, which is not among the sources: it
  is a parameter. A template is what \<^verbatim>\<open>str.format\<close> sees in the text: literal pieces
  and positional replacement fields. A field beyond the arguments raises
  \<^verbatim>\<open>IndexError\<close>.
\<close>

datatype piece = Text string | Field nat

fun format :: "piece list \<Rightarrow> string list \<Rightarrow> exn + string" where
  "format [] args = Inr []"
| "format (Text t # ps) args =
     (case format ps args of Inl e \<Rightarrow> Inl e | Inr r \<Rightarrow> Inr (t @ r))"
| "format (Field i # ps) args =
     (if i < length args
      then (case format ps args of Inl e \<Rightarrow> Inl e | Inr r \<Rightarrow> Inr (args ! i @ r))
      else Inl IndexError)"

text \<open>Every field of the template is among the first \<open>n\<close> arguments.\<close>

fun fits :: "piece list \<Rightarrow> nat \<Rightarrow> bool" where
  "fits [] n = True"
| "fits (Text t # ps) n = fits ps n"
| "fits (Field i # ps) n = (i < n \<and> fits ps n)"

section \<open>summary\_bot.py\<close>

definition MINIMUM_REDUCTION_THRESHOLD :: int where
  "MINIMUM_REDUCTION_THRESHOLD = 50"

definition MAXIMUM_REDUCTION_THRESHOLD :: int where
  "MAXIMUM_REDUCTION_THRESHOLD = 96"

text \<open>What \<^verbatim>\<open>tldextract.extract\<close> answers.\<close>

record extract_result =
  ext_subdomain :: string
  ext_domain :: string
  ext_suffix :: string

text \<open>
  What \<^verbatim>\<open>run_bot\<close> reads of a response: the \<^verbatim>\<open>content-type\<close> header (\<open>None\<close> when
  the header is absent and the lookup raises \<^verbatim>\<open>KeyError\<close>), the body bytes and the
  encoding in force.
\<close>

record response =
  content_type :: "string option"
  content :: string
  encoding :: "string option"

text \<open>
  The dictionary \<^verbatim>\<open>summary.get_summary\<close> answers, with the three keys \<^verbatim>\<open>run_bot\<close>
  reads; the reduction is a percentage, taken as an integer.
\<close>

record summary_dict =
  reduction :: int
  top_sentences :: "string list"
  top_words :: "string list"

text \<open>
  The collaborators of \<^verbatim>\<open>run_bot\<close> that are not among the sources, as parameters: the
  client constructor \<^verbatim>\<open>Lemmy\<close>, the lines of the blocklist file (\<open>None\<close> when the file is
  missing), \<^verbatim>\<open>tldextract.extract\<close>, \<^verbatim>\<open>requests.get\<close>, the decoding behind
  \<^verbatim>\<open>response.text\<close> (from the encoding and the bytes), \<^verbatim>\<open>scraper.scrape_html\<close>,
  \<^verbatim>\<open>summary.get_summary\<close> and the template.
\<close>

record 'w env =
  Lemmy :: "string \<Rightarrow> 'w lemmy"
  BLOCKLIST_FILE :: "string list option"
  tldextract_extract :: "string \<Rightarrow> extract_result"
  requests_get :: "string \<Rightarrow> 'w \<Rightarrow> (exn + response) \<times> 'w"
  decode :: "string option \<Rightarrow> string \<Rightarrow> string"
  scrape_html :: "string \<Rightarrow> exn + string \<times> string \<times> string"
  get_summary :: "string \<Rightarrow> exn + summary_dict"
  TEMPLATE :: "piece list"

definition load_blocklist :: "'w env \<Rightarrow> exn + string list" where
  "load_blocklist E =
     (case BLOCKLIST_FILE E of
        None \<Rightarrow> Inl (FileNotFoundError ''./assets/blocklist.txt'')
      | Some ls \<Rightarrow> Inr ls)"

definition load_log :: "'w state \<Rightarrow> string list \<times> 'w state" where
  "load_log s =
     (case posts_log s of
        Some ls \<Rightarrow> (ls, s)
      | None \<Rightarrow> ([], s\<lparr>posts_log := Some []\<rparr>))"

definition update_log :: "string \<Rightarrow> 'w state \<Rightarrow> 'w state" where
  "update_log post_id s =
     s\<lparr>posts_log := Some ((case posts_log s of None \<Rightarrow> [] | Some ls \<Rightarrow> ls) @ [post_id])\<rparr>"

text \<open>\<^verbatim>\<open>response.text\<close>: the body decoded under the encoding in force.\<close>

definition text_of :: "'w env \<Rightarrow> response \<Rightarrow> string" where
  "text_of E r = decode E (encoding r) (content r)"

text \<open>The \<^verbatim>\<open>if\<close>/\<^verbatim>\<open>elif\<close> that reassigns \<^verbatim>\<open>response.encoding\<close>.\<close>

definition fix_encoding :: "'w env \<Rightarrow> response \<Rightarrow> response" where
  "fix_encoding E r =
     (if contains ''iso-8859-1'' (lower (text_of E r)) then r\<lparr>encoding := Some ''iso-8859-1''\<rparr>
      else if encoding r = Some ''ISO-8859-1'' then r\<lparr>encoding := Some ''utf-8''\<rparr>
      else r)"

definition media_types :: "string list" where
  "media_types = [''image/png'', ''image/jpeg'', ''image/jpg'', ''image/gif'', ''image/mp4'']"

text \<open>
  How the \<^verbatim>\<open>try\<close> statement ends: an exception reached \<^verbatim>\<open>except Exception\<close>, an
  exception that is no \<^verbatim>\<open>Exception\<close> passed the handler, the \<^verbatim>\<open>continue\<close> of the
  content-type filter was taken, or the block ran through with the title, the date and
  the summary.
\<close>

datatype outcome =
    Caught exn
  | Propagated exn
  | Continue
  | Summarized string string summary_dict

text \<open>What \<^verbatim>\<open>except Exception\<close> does with an exception raised inside the block.\<close>

definition except_Exception :: "exn \<Rightarrow> outcome" where
  "except_Exception e = (if is_exception e then Caught e else Propagated e)"

definition try_block :: "'w env \<Rightarrow> string \<Rightarrow> string \<Rightarrow> 'w state \<Rightarrow> outcome \<times> 'w state" where
  "try_block E post_id clean_url s =
     (let (got, w) = requests_get E clean_url (world s);
          s1 = emit (HttpGet clean_url) (s\<lparr>world := w\<rparr>)
      in case got of
           Inl e \<Rightarrow> (except_Exception e, s1)
         | Inr r \<Rightarrow>
            (case content_type r of
               None \<Rightarrow> (except_Exception (KeyError ''content-type''), s1)
             | Some ct \<Rightarrow>
                if ct \<in> set media_types
                then (Continue, update_log post_id (emit (Log INFO (BlockContentType ct)) s1))
                else
                  let html_source = text_of E (fix_encoding E r);
                      s2 = emit (ScrapeHtml html_source) s1
                  in case scrape_html E html_source of
                       Inl e \<Rightarrow> (except_Exception e, s2)
                     | Inr (article_title, article_date, article_body) \<Rightarrow>
                        let s3 = emit (GetSummary article_body) s2
                        in case get_summary E article_body of
                             Inl e \<Rightarrow> (except_Exception e, s3)
                           | Inr sd \<Rightarrow> (Summarized article_title article_date sd, s3)))"

text \<open>The loop over \<^verbatim>\<open>enumerate(summary_dict["top_words"])\<close> that builds \<^verbatim>\<open>top_words\<close>.\<close>

fun rank_words :: "nat \<Rightarrow> string list \<Rightarrow> string \<Rightarrow> string" where
  "rank_words index [] acc = acc"
| "rank_words index (word # ws) acc =
     rank_words (index + 1) ws (acc @ word @ ''^#'' @ str_nat (index + 1) @ '' '')"

definition newline :: char where
  "newline = CHR 0x0A"

definition post_body_of :: "summary_dict \<Rightarrow> string" where
  "post_body_of sd = join [newline, newline] (map (\<lambda>item. ''> '' @ item) (top_sentences sd))"

text \<open>
  The code after the \<^verbatim>\<open>try\<close> statement: the gate on the reduction, the comment and the
  log. The string \<^verbatim>\<open>top_words\<close> is built and not used; the call that would send the
  comment is commented out in the source, the comment goes to the log only.
\<close>

definition gate ::
  "'w env \<Rightarrow> post \<Rightarrow> string \<Rightarrow> string \<Rightarrow> string \<Rightarrow> string \<Rightarrow> summary_dict \<Rightarrow> 'w state \<Rightarrow>
   (exn + unit) \<times> 'w state" where
  "gate E p post_id clean_url article_title article_date sd s =
     (if MINIMUM_REDUCTION_THRESHOLD \<le> reduction sd \<and> reduction sd \<le> MAXIMUM_REDUCTION_THRESHOLD
      then
        let post_body = post_body_of sd;
            top_words_str = rank_words 0 (top_words sd) []
        in case format (TEMPLATE E)
                  [article_title, clean_url, str_int (reduction sd), article_date, post_body] of
             Inl e \<Rightarrow> (Inl e, s)
           | Inr comment \<Rightarrow>
               (Inr (), update_log post_id (emit (Log INFO (WillAddComment (ap_id p) comment)) s))
      else (Inr (), emit (Log INFO (Skipped post_id (reduction sd))) (update_log post_id s)))"

definition clean_url_of :: "string \<Rightarrow> string" where
  "clean_url_of u = str_replace ''amp.'' [] u"

definition domain_of :: "extract_result \<Rightarrow> string" where
  "domain_of ext = ext_domain ext @ ''.'' @ ext_suffix ext"

text \<open>
  The body of \<^verbatim>\<open>for post in posts\<close>. \<open>Inr ()\<close> is the end of the iteration (by
  \<^verbatim>\<open>continue\<close> or by reaching the end of the body), \<open>Inl e\<close> an exception that leaves the
  loop.
\<close>

definition process_post ::
  "'w env \<Rightarrow> string list \<Rightarrow> string list \<Rightarrow> post \<Rightarrow> 'w state \<Rightarrow> (exn + unit) \<times> 'w state" where
  "process_post E processed_posts blocklist p s =
     (let post_id = str_int (id' p)
      in case url p of
           None \<Rightarrow> (Inr (), s)
         | Some u \<Rightarrow>
            if post_id \<in> set processed_posts then (Inr (), s)
            else
              let clean_url = clean_url_of u;
                  ext = tldextract_extract E clean_url;
                  domain = domain_of ext
              in if domain \<in> set blocklist
                 then (Inr (), emit (Log DEBUG (BlocklistDomain domain clean_url (ap_id p))) s)
                 else
                   let s1 = emit (Log INFO (SummarizeDomain domain clean_url (ap_id p))) s
                   in case try_block E post_id clean_url s1 of
                        (Caught e, s2) \<Rightarrow>
                          (Inr (), update_log post_id
                                     (emit (Log ERROR (FailedToProcess post_id (ap_id p) domain e)) s2))
                      | (Propagated e, s2) \<Rightarrow> (Inl e, s2)
                      | (Continue, s2) \<Rightarrow> (Inr (), s2)
                      | (Summarized article_title article_date sd, s2) \<Rightarrow>
                          gate E p post_id clean_url article_title article_date sd s2)"

fun for_posts ::
  "'w env \<Rightarrow> string list \<Rightarrow> string list \<Rightarrow> post list \<Rightarrow> 'w state \<Rightarrow> (exn + unit) \<times> 'w state" where
  "for_posts E processed_posts blocklist [] s = (Inr (), s)"
| "for_posts E processed_posts blocklist (p # ps) s =
     (case process_post E processed_posts blocklist p s of
        (Inl e, s') \<Rightarrow> (Inl e, s')
      | (Inr _, s') \<Rightarrow> for_posts E processed_posts blocklist ps s')"

definition run_bot ::
  "'w env \<Rightarrow> string \<Rightarrow> string \<Rightarrow> string \<Rightarrow> 'w state \<Rightarrow> (exn + unit) \<times> 'w state" where
  "run_bot E domain username password s =
     (let (processed_posts, s1) = load_log s
      in case load_blocklist E of
           Inl e \<Rightarrow> (Inl e, s1)
         | Inr blocklist \<Rightarrow>
            let lemmy = Lemmy E domain
            in case safe_api_call (LogIn username password) truthy_bool
                      (log_in lemmy username password) s1 of
                 (Inl e, s2) \<Rightarrow> (Inl e, s2)
               | (Inr _, s2) \<Rightarrow>
                  (case get_posts_deep lemmy None None None (Some ''New'') (Some ''Local'') s2 of
                     (Inl e, s3) \<Rightarrow> (Inl e, s3)
                   | (Inr posts, s3) \<Rightarrow>
                       for_posts E processed_posts blocklist posts
                         (emit (Log INFO (Loaded (length posts))) s3)))"

section \<open>Reference definitions and sample inputs\<close>





text \<open>A state before the first cycle: no log file, nothing done yet.\<close>

definition fresh :: "'w \<Rightarrow> 'w state" where
  "fresh w = \<lparr>world = w, posts_log = None, trace = []\<rparr>"

text \<open>An operation that never succeeds, and one that succeeds from its tenth call on
  (the world counts the calls).\<close>

definition always_fails :: "nat \<Rightarrow> bool \<times> nat" where
  "always_fails w = (False, Suc w)"

definition tenth_succeeds :: "nat \<Rightarrow> bool \<times> nat" where
  "tenth_succeeds w = (9 \<le> w, Suc w)"

text \<open>
  A feed of pages of 20 entries, none deleted or saved: entry \<open>k\<close> of page \<open>i\<close> is the post
  with id \<open>20 * i + k\<close>. The world counts the requests.
\<close>

definition sample_view :: "nat \<Rightarrow> nat \<Rightarrow> post_view" where
  "sample_view i k =
     \<lparr>post = \<lparr>id' = int (20 * i + k), ap_id = [], url = None, deleted = False\<rparr>, saved = False\<rparr>"

definition sample_page :: "list_kwargs \<Rightarrow> nat \<Rightarrow> post_view list \<times> nat" where
  "sample_page kw w = (map (sample_view (page kw)) [0..<20], Suc w)"

definition sample_login :: "string \<Rightarrow> string \<Rightarrow> nat \<Rightarrow> bool \<times> nat" where
  "sample_login username password w = (True, Suc w)"

definition sample_lemmy :: "nat lemmy" where
  "sample_lemmy = \<lparr>log_in = sample_login, post_list = sample_page\<rparr>"

text \<open>The comments that reached the log line \<^verbatim>\<open>Will add new comment to post\<close>.\<close>

fun comments :: "event list \<Rightarrow> string list" where
  "comments [] = []"
| "comments (Log INFO (WillAddComment a c) # es) = c # comments es"
| "comments (_ # es) = comments es"

text \<open>The lines of the log file, none while the file does not exist.\<close>

definition log_lines :: "'w state \<Rightarrow> string list" where
  "log_lines s = (case posts_log s of None \<Rightarrow> [] | Some ls \<Rightarrow> ls)"

text \<open>
  A small world for a cycle. The extractor knows three hosts; every fetch of
  \<^verbatim>\<open>example.com\<close> answers an HTML page in UTF-8, any other fetch fails; the scraper and
  the summarizer answer fixed values, the summary with the reduction given.
\<close>

definition sample_extract :: "string \<Rightarrow> extract_result" where
  "sample_extract u =
     (if u = ''http://example.com/a''
        then \<lparr>ext_subdomain = [], ext_domain = ''example'', ext_suffix = ''com''\<rparr>
      else if u = ''http://amp.example.com/a''
        then \<lparr>ext_subdomain = ''amp'', ext_domain = ''example'', ext_suffix = ''com''\<rparr>
      else if u = ''http://camp.example.com/a''
        then \<lparr>ext_subdomain = ''camp'', ext_domain = ''example'', ext_suffix = ''com''\<rparr>
      else if u = ''http://cexample.com/a''
        then \<lparr>ext_subdomain = [], ext_domain = ''cexample'', ext_suffix = ''com''\<rparr>
      else if u = ''http://i.imgur.com/x''
        then \<lparr>ext_subdomain = ''i'', ext_domain = ''imgur'', ext_suffix = ''com''\<rparr>
      else \<lparr>ext_subdomain = [], ext_domain = ''down'', ext_suffix = ''test''\<rparr>)"

definition sample_get :: "string \<Rightarrow> nat \<Rightarrow> (exn + response) \<times> nat" where
  "sample_get u w =
     (if u = ''http://example.com/a''
      then (Inr \<lparr>content_type = Some ''text/html'', content = ''<p>'', encoding = Some ''utf-8''\<rparr>, Suc w)
      else (Inl (Raised ''ConnectionError''), Suc w))"

definition sample_decode :: "string option \<Rightarrow> string \<Rightarrow> string" where
  "sample_decode enc bytes = bytes"

definition sample_scrape :: "string \<Rightarrow> exn + string \<times> string \<times> string" where
  "sample_scrape html = Inr (''T'', ''D'', ''B'')"

definition sample_summary :: "int \<Rightarrow> string \<Rightarrow> exn + summary_dict" where
  "sample_summary r body =
     Inr \<lparr>reduction = r, top_sentences = [''S1'', ''S2''], top_words = [''foo'', ''bar'']\<rparr>"

definition sample_lemmy_of :: "string \<Rightarrow> nat lemmy" where
  "sample_lemmy_of domain = sample_lemmy"

definition sample_template :: "piece list" where
  "sample_template =
     [Field 0, Text '' '', Field 1, Text '' '', Field 2, Text '' '', Field 3, Text [newline], Field 4]"

definition sample_env :: "int \<Rightarrow> nat env" where
  "sample_env r =
     \<lparr>Lemmy = sample_lemmy_of, BLOCKLIST_FILE = Some [''imgur.com''],
      tldextract_extract = sample_extract, requests_get = sample_get, decode = sample_decode,
      scrape_html = sample_scrape, get_summary = sample_summary r, TEMPLATE = sample_template\<rparr>"

text \<open>
  Three responses: one whose text names the charset, one declared as ISO-8859-1 without
  the marker in its text, one declared in lower case without the marker.
\<close>

definition marked_response :: response where
  "marked_response =
     \<lparr>content_type = Some ''text/html'', content = ''charset=ISO-8859-1'', encoding = Some ''utf-8''\<rparr>"

definition latin1_response :: response where
  "latin1_response =
     \<lparr>content_type = Some ''text/html'', content = ''<p>'', encoding = Some ''ISO-8859-1''\<rparr>"

definition lower_case_response :: response where
  "lower_case_response =
     \<lparr>content_type = Some ''text/html'', content = ''<p>'', encoding = Some ''iso-8859-1''\<rparr>"

text \<open>
  The post of the end-to-end scenario (an AMP mirror), a post of a blocklisted host, one
  whose host is down, and one on a subdomain whose name ends in \<^verbatim>\<open>amp\<close>.
\<close>

definition p1 :: post where
  "p1 = \<lparr>id' = 1, ap_id = ''ap1'', url = Some ''http://amp.example.com/a'', deleted = False\<rparr>"

definition p2 :: post where
  "p2 = \<lparr>id' = 2, ap_id = ''ap2'', url = Some ''http://i.imgur.com/x'', deleted = False\<rparr>"

definition p3 :: post where
  "p3 = \<lparr>id' = 3, ap_id = ''ap3'', url = Some ''http://down.test/a'', deleted = False\<rparr>"

definition p4 :: post where
  "p4 = \<lparr>id' = 4, ap_id = ''ap4'', url = Some ''http://camp.example.com/a'', deleted = False\<rparr>"

text \<open>
  A feed whose first page holds the three posts, the other pages one post without URL
  each, and the world of a whole cycle over it.
\<close>

definition feed_page :: "list_kwargs \<Rightarrow> nat \<Rightarrow> post_view list \<times> nat" where
  "feed_page kw w =
     (if page kw = 1
      then [\<lparr>post = p1, saved = False\<rparr>, \<lparr>post = p2, saved = False\<rparr>, \<lparr>post = p3, saved = False\<rparr>]
      else [sample_view (page kw) 0], Suc w)"

definition feed_lemmy_of :: "string \<Rightarrow> nat lemmy" where
  "feed_lemmy_of domain = \<lparr>log_in = sample_login, post_list = feed_page\<rparr>"

definition feed_env :: "nat env" where
  "feed_env = (sample_env 75)\<lparr>Lemmy := feed_lemmy_of\<rparr>"

text \<open>The same world with a template of six fields.\<close>

definition six_fields_env :: "nat env" where
  "six_fields_env = feed_env\<lparr>TEMPLATE := sample_template @ [Field 5]\<rparr>"

text \<open>The sample world with a summarizer that is interrupted from the keyboard.\<close>

definition interrupted_summary :: "string \<Rightarrow> exn + summary_dict" where
  "interrupted_summary body = Inl KeyboardInterrupt"

definition interrupted_env :: "nat env" where
  "interrupted_env = (sample_env 75)\<lparr>get_summary := interrupted_summary\<rparr>"

text \<open>The state once \<^verbatim>\<open>load_log\<close> has created the empty log file.\<close>

definition started :: "nat state" where
  "started = \<lparr>world = 0, posts_log = Some [], trace = []\<rparr>"

section \<open>Properties of safe\_api\_call\<close>

declare safe_api_loop.simps [simp del]

lemma sleeps_append: "sleeps (xs @ ys) = sleeps xs @ sleeps ys"
  by (induction xs rule: sleeps.induct) simp_all

lemma invocations_append: "invocations (xs @ ys) = invocations xs @ invocations ys"
  by (simp add: invocations_def)

lemma safe_api_loop_retry:
  "\<not> truthy (fst (f (world s))) \<Longrightarrow> retries < 10 \<Longrightarrow>
   safe_api_loop req truthy f retries s =
   safe_api_loop req truthy f (Suc retries)
     (s\<lparr>world := snd (f (world s)), trace := trace s @ failed_round req (Suc retries)\<rparr>)"
  by (subst safe_api_loop.simps) (simp add: emit_def failed_round_def case_prod_beta Let_def)

lemma safe_api_loop_exit:
  "truthy (fst (f (world s))) \<or> 10 \<le> retries \<Longrightarrow>
   safe_api_loop req truthy f retries s =
   (fst (f (world s)), retries, s\<lparr>world := snd (f (world s)), trace := trace s @ [Invoke req]\<rparr>)"
  by (subst safe_api_loop.simps) (auto simp add: emit_def case_prod_beta Let_def)

lemma safe_api_loop_exhaust:
  "n = 10 - retries \<Longrightarrow> retries \<le> 10 \<Longrightarrow>
   (\<forall>k < n. \<not> truthy (fst (f (world_after f k (world s))))) \<Longrightarrow>
   safe_api_loop req truthy f retries s =
     (fst (f (world_after f n (world s))), 10,
      s\<lparr>world := world_after f (Suc n) (world s),
        trace := trace s @ concat (map (failed_round req) [Suc retries..<11]) @ [Invoke req]\<rparr>)"
proof (induction n arbitrary: retries s)
  case 0
  then have "retries = 10" by simp
  then show ?case by (simp add: safe_api_loop_exit)
next
  case (Suc n)
  let ?s = "s\<lparr>world := snd (f (world s)), trace := trace s @ failed_round req (Suc retries)\<rparr>"
  from Suc.prems have lt: "retries < 10" and n: "n = 10 - Suc retries" by simp_all
  from Suc.prems have first: "\<not> truthy (fst (f (world s)))" by (auto dest: spec [of _ 0])
  have rest: "\<forall>k<n. \<not> truthy (fst (f (world_after f k (world ?s))))"
  proof (intro allI impI)
    fix k assume "k < n"
    then have "Suc k < Suc n" by simp
    with Suc.prems(3) have "\<not> truthy (fst (f (world_after f (Suc k) (world s))))" by blast
    then show "\<not> truthy (fst (f (world_after f k (world ?s))))"
      by simp
  qed
  have up: "[Suc retries..<11] = Suc retries # [Suc (Suc retries)..<11]"
    using lt by (simp add: upt_conv_Cons)
  have step: "safe_api_loop req truthy f retries s = safe_api_loop req truthy f (Suc retries) ?s"
    using first lt by (rule safe_api_loop_retry)
  show ?case
    using Suc.IH [OF n _ rest] lt
    by (simp add: step up)
qed

lemma safe_api_call_exhaust:
  assumes "\<forall>k < 9. \<not> truthy (fst (f (world_after f k (world s))))"
  shows "safe_api_call req truthy f s =
     (Inl (RuntimeError ''Failed to invoke Lemmy API''),
      s\<lparr>world := world_after f 10 (world s),
        trace := trace s @ concat (map (failed_round req) [2..<11]) @ [Invoke req]\<rparr>)"
proof -
  have "safe_api_loop req truthy f 1 s =
     (fst (f (world_after f 9 (world s))), 10,
      s\<lparr>world := world_after f (Suc 9) (world s),
        trace := trace s @ concat (map (failed_round req) [Suc 1..<11]) @ [Invoke req]\<rparr>)"
    by (rule safe_api_loop_exhaust) (use assms in simp_all)
  then show ?thesis
    by (simp add: safe_api_call_def numeral_2_eq_2)
qed

lemma safe_api_call_first_try:
  assumes "truthy (fst (f (world s)))"
  shows "safe_api_call req truthy f s =
     (Inr (fst (f (world s))), s\<lparr>world := snd (f (world s)), trace := trace s @ [Invoke req]\<rparr>)"
  using assms by (simp add: safe_api_call_def safe_api_loop_exit)




lemma sleeps_rounds:
  "sleeps (concat (map (failed_round req) [2..<11]) @ [Invoke req]) = [10, 15, 20, 25, 30, 35, 40, 45, 50]"
  by (simp add: failed_round_def upt_rec_numeral)

lemma invocations_rounds:
  "invocations (concat (map (failed_round req) [2..<11]) @ [Invoke req]) = replicate 10 (Invoke req)"
  by (simp add: failed_round_def upt_rec_numeral invocations_def numeral_eq_Suc)

lemma exhausted_effects:
  assumes "safe_api_call req truthy f s =
     (Inl (RuntimeError ''Failed to invoke Lemmy API''),
      s\<lparr>world := w,
        trace := trace s @ concat (map (failed_round req) [2..<11]) @ [Invoke req]\<rparr>)"
  shows "fst (safe_api_call req truthy f s) = Inl (RuntimeError ''Failed to invoke Lemmy API'')"
    and "invocations (trace (snd (safe_api_call req truthy f s)))
        = invocations (trace s) @ replicate 10 (Invoke req)"
    and "sleeps (trace (snd (safe_api_call req truthy f s)))
        = sleeps (trace s) @ [10, 15, 20, 25, 30, 35, 40, 45, 50]"
    and "world (snd (safe_api_call req truthy f s)) = w"
proof -
  define evs where "evs = concat (map (failed_round req) [2..<11]) @ [Invoke req]"
  have sl: "sleeps evs = [10, 15, 20, 25, 30, 35, 40, 45, 50]"
    unfolding evs_def by (rule sleeps_rounds)
  have iv: "invocations evs = replicate 10 (Invoke req)"
    unfolding evs_def by (rule invocations_rounds)
  have tr: "trace (snd (safe_api_call req truthy f s)) = trace s @ evs"
    unfolding assms evs_def by simp
  show "fst (safe_api_call req truthy f s) = Inl (RuntimeError ''Failed to invoke Lemmy API'')"
    unfolding assms by simp
  show "invocations (trace (snd (safe_api_call req truthy f s)))
        = invocations (trace s) @ replicate 10 (Invoke req)"
    unfolding tr invocations_append iv by (rule refl)
  show "sleeps (trace (snd (safe_api_call req truthy f s)))
        = sleeps (trace s) @ [10, 15, 20, 25, 30, 35, 40, 45, 50]"
    unfolding tr sleeps_append sl by (rule refl)
  show "world (snd (safe_api_call req truthy f s)) = w"
    unfolding assms by simp
qed

text \<open>
  Claim C2, as the code has it. When every invocation of the operation answers a falsy
  result, \<^verbatim>\<open>safe_api_call\<close> invokes it exactly 10 times and then raises the
  \<^verbatim>\<open>RuntimeError\<close>. Between each attempt and the next it warns and sleeps, 10 seconds
  after the first attempt, then 15, ..., and 50 seconds before the tenth (the counter is
  incremented before the wait is computed from it); after the tenth attempt it does not
  sleep. These are nine waits that grow by 5, 270 seconds in all, the longest 50 seconds.
\<close>

theorem safe_api_call_always_falsy:
  assumes "\<forall>w. \<not> truthy (fst (f w))"
  shows "fst (safe_api_call req truthy f s) = Inl (RuntimeError ''Failed to invoke Lemmy API'')
    \<and> trace (snd (safe_api_call req truthy f s)) =
         trace s @
           [Invoke req, Log WARNING (RetryIn req 10), Sleep 10,
             Invoke req, Log WARNING (RetryIn req 15), Sleep 15,
             Invoke req, Log WARNING (RetryIn req 20), Sleep 20,
             Invoke req, Log WARNING (RetryIn req 25), Sleep 25,
             Invoke req, Log WARNING (RetryIn req 30), Sleep 30,
             Invoke req, Log WARNING (RetryIn req 35), Sleep 35,
             Invoke req, Log WARNING (RetryIn req 40), Sleep 40,
             Invoke req, Log WARNING (RetryIn req 45), Sleep 45,
             Invoke req, Log WARNING (RetryIn req 50), Sleep 50,
             Invoke req]
    \<and> invocations (trace (snd (safe_api_call req truthy f s)))
        = invocations (trace s) @ replicate 10 (Invoke req)
    \<and> sleeps (trace (snd (safe_api_call req truthy f s)))
        = sleeps (trace s) @ [10, 15, 20, 25, 30, 35, 40, 45, 50]
    \<and> sum_list [10, 15, 20, 25, 30, 35, 40, 45, 50] = (270 :: nat)"
proof -
  have "\<forall>k < 9. \<not> truthy (fst (f (world_after f k (world s))))"
    using assms by simp
  then have eq: "safe_api_call req truthy f s =
     (Inl (RuntimeError ''Failed to invoke Lemmy API''),
      s\<lparr>world := world_after f 10 (world s),
        trace := trace s @ concat (map (failed_round req) [2..<11]) @ [Invoke req]\<rparr>)"
    by (rule safe_api_call_exhaust)
  have rounds: "concat (map (failed_round req) [2..<11]) @ [Invoke req] =
           [Invoke req, Log WARNING (RetryIn req 10), Sleep 10,
             Invoke req, Log WARNING (RetryIn req 15), Sleep 15,
             Invoke req, Log WARNING (RetryIn req 20), Sleep 20,
             Invoke req, Log WARNING (RetryIn req 25), Sleep 25,
             Invoke req, Log WARNING (RetryIn req 30), Sleep 30,
             Invoke req, Log WARNING (RetryIn req 35), Sleep 35,
             Invoke req, Log WARNING (RetryIn req 40), Sleep 40,
             Invoke req, Log WARNING (RetryIn req 45), Sleep 45,
             Invoke req, Log WARNING (RetryIn req 50), Sleep 50,
             Invoke req]"
    by (simp add: failed_round_def upt_rec_numeral)
  have "trace (snd (safe_api_call req truthy f s)) =
      trace s @ concat (map (failed_round req) [2..<11]) @ [Invoke req]"
    unfolding eq by simp
  then have tr: "trace (snd (safe_api_call req truthy f s)) =
         trace s @
           [Invoke req, Log WARNING (RetryIn req 10), Sleep 10,
             Invoke req, Log WARNING (RetryIn req 15), Sleep 15,
             Invoke req, Log WARNING (RetryIn req 20), Sleep 20,
             Invoke req, Log WARNING (RetryIn req 25), Sleep 25,
             Invoke req, Log WARNING (RetryIn req 30), Sleep 30,
             Invoke req, Log WARNING (RetryIn req 35), Sleep 35,
             Invoke req, Log WARNING (RetryIn req 40), Sleep 40,
             Invoke req, Log WARNING (RetryIn req 45), Sleep 45,
             Invoke req, Log WARNING (RetryIn req 50), Sleep 50,
             Invoke req]"
    unfolding rounds .
  show ?thesis
    using exhausted_effects(1-3) [OF eq] tr by simp
qed

lemma world_after_tenth_succeeds: "world_after tenth_succeeds k w = k + w"
  by (induction k arbitrary: w) (simp_all add: tenth_succeeds_def truthy_bool_def)

text \<open>The theorem of C2 at an operation that answers \<^verbatim>\<open>False\<close> on every call.\<close>

theorem safe_api_call_always_falsy_witness:
  "fst (safe_api_call (LogIn ''bot'' ''pw'') truthy_bool always_fails (fresh 0))
      = Inl (RuntimeError ''Failed to invoke Lemmy API'')
    \<and> trace (snd (safe_api_call (LogIn ''bot'' ''pw'') truthy_bool always_fails (fresh 0))) =
        [Invoke (LogIn ''bot'' ''pw''), Log WARNING (RetryIn (LogIn ''bot'' ''pw'') 10), Sleep 10,
         Invoke (LogIn ''bot'' ''pw''), Log WARNING (RetryIn (LogIn ''bot'' ''pw'') 15), Sleep 15,
         Invoke (LogIn ''bot'' ''pw''), Log WARNING (RetryIn (LogIn ''bot'' ''pw'') 20), Sleep 20,
         Invoke (LogIn ''bot'' ''pw''), Log WARNING (RetryIn (LogIn ''bot'' ''pw'') 25), Sleep 25,
         Invoke (LogIn ''bot'' ''pw''), Log WARNING (RetryIn (LogIn ''bot'' ''pw'') 30), Sleep 30,
         Invoke (LogIn ''bot'' ''pw''), Log WARNING (RetryIn (LogIn ''bot'' ''pw'') 35), Sleep 35,
         Invoke (LogIn ''bot'' ''pw''), Log WARNING (RetryIn (LogIn ''bot'' ''pw'') 40), Sleep 40,
         Invoke (LogIn ''bot'' ''pw''), Log WARNING (RetryIn (LogIn ''bot'' ''pw'') 45), Sleep 45,
         Invoke (LogIn ''bot'' ''pw''), Log WARNING (RetryIn (LogIn ''bot'' ''pw'') 50), Sleep 50,
         Invoke (LogIn ''bot'' ''pw'')]
    \<and> invocations (trace (snd (safe_api_call (LogIn ''bot'' ''pw'') truthy_bool always_fails (fresh 0))))
        = replicate 10 (Invoke (LogIn ''bot'' ''pw''))
    \<and> sleeps (trace (snd (safe_api_call (LogIn ''bot'' ''pw'') truthy_bool always_fails (fresh 0))))
        = [10, 15, 20, 25, 30, 35, 40, 45, 50]"
proof -
  have h: "\<forall>w. \<not> truthy_bool (fst (always_fails w))"
    by (simp add: always_fails_def truthy_bool_def)
  have t: "trace (fresh (0::nat)) = []"
    by (simp add: fresh_def)
  have i: "invocations [] = []"
    by (simp add: invocations_def)
  from safe_api_call_always_falsy
         [OF h, of "LogIn ''bot'' ''pw''" "fresh 0", unfolded t i sleeps.simps(1) append_Nil]
  show ?thesis
    by blast
qed

text \<open>
  Claim C2 as written asks for waits of 5, 10, ..., 45 seconds with a longest wait of 45
  seconds. On the always failing operation the waits are not that list, and the longest
  one is 50 seconds.
\<close>

theorem retry_waits_counterexample:
  "sleeps (trace (snd (safe_api_call (LogIn ''bot'' ''pw'') truthy_bool always_fails (fresh 0))))
     \<noteq> [5, 10, 15, 20, 25, 30, 35, 40, 45]
   \<and> Max (set (sleeps (trace (snd (safe_api_call (LogIn ''bot'' ''pw'') truthy_bool always_fails (fresh 0)))))) = 50"
proof -
  have "\<forall>k < 9. \<not> truthy_bool (fst (always_fails (world_after always_fails k (world (fresh 0)))))"
    by (simp add: always_fails_def truthy_bool_def)
  from exhausted_effects(3) [OF safe_api_call_exhaust [OF this]] show ?thesis
    by (simp add: fresh_def)
qed

text \<open>
  Claim C10. When the operation answers a falsy result on each of its first 9 invocations
  and a truthy one on the 10th, \<^verbatim>\<open>safe_api_call\<close> makes exactly these 10 invocations and
  still raises the \<^verbatim>\<open>RuntimeError\<close>: the response of the 10th attempt is not returned.
\<close>

theorem safe_api_call_tenth_success_discarded:
  assumes "\<forall>k < 9. \<not> truthy (fst (f (world_after f k (world s))))"
    and "truthy (fst (f (world_after f 9 (world s))))"
  shows "fst (safe_api_call req truthy f s) = Inl (RuntimeError ''Failed to invoke Lemmy API'')
    \<and> invocations (trace (snd (safe_api_call req truthy f s)))
        = invocations (trace s) @ replicate 10 (Invoke req)
    \<and> world (snd (safe_api_call req truthy f s)) = world_after f 10 (world s)"
  using exhausted_effects(1,2,4) [OF safe_api_call_exhaust [OF assms(1)]] by simp

text \<open>The theorem of C10 at an operation that succeeds from its tenth call on.\<close>

theorem safe_api_call_tenth_success_discarded_witness:
  "truthy_bool (fst (tenth_succeeds (world_after tenth_succeeds 9 (world (fresh 0)))))
   \<and> fst (safe_api_call (LogIn ''bot'' ''pw'') truthy_bool tenth_succeeds (fresh 0))
      = Inl (RuntimeError ''Failed to invoke Lemmy API'')
   \<and> invocations (trace (snd (safe_api_call (LogIn ''bot'' ''pw'') truthy_bool tenth_succeeds (fresh 0))))
      = replicate 10 (Invoke (LogIn ''bot'' ''pw''))"
proof -
  have a: "\<forall>k < 9. \<not> truthy_bool (fst (tenth_succeeds (world_after tenth_succeeds k (world (fresh 0)))))"
    by (simp add: world_after_tenth_succeeds tenth_succeeds_def truthy_bool_def fresh_def)
  have b: "truthy_bool (fst (tenth_succeeds (world_after tenth_succeeds 9 (world (fresh 0)))))"
    by (simp add: world_after_tenth_succeeds tenth_succeeds_def truthy_bool_def fresh_def)
  show ?thesis
    using b safe_api_call_tenth_success_discarded [OF a b, of "LogIn ''bot'' ''pw''"]
    by (simp add: fresh_def invocations_def)
qed


section \<open>Properties of get\_posts\_deep\<close>











section \<open>Properties of the loop of run\_bot\<close>

lemmas sample_defs = sample_env_def sample_extract_def sample_get_def sample_decode_def
  sample_scrape_def sample_summary_def sample_template_def six_fields_env_def
  interrupted_env_def interrupted_summary_def
  p1_def p2_def p3_def p4_def started_def

lemmas run_defs = process_post_def try_block_def gate_def clean_url_of_def startswith_def
  domain_of_def str_int_def emit_def update_log_def media_types_def text_of_def fix_encoding_def
  lower_def lower_char_def post_body_of_def MINIMUM_REDUCTION_THRESHOLD_def
  MAXIMUM_REDUCTION_THRESHOLD_def log_lines_def except_Exception_def Let_def

lemmas feed_defs = feed_env_def feed_lemmy_of_def feed_page_def sample_login_def sample_view_def
  fresh_def run_bot_def load_log_def load_blocklist_def get_posts_deep_def
  safe_api_call_first_try truthy_bool_def truthy_list_def page_kwargs_def kept_def

lemma process_post_no_url:
  "url p = None \<Longrightarrow> process_post E processed_posts blocklist p s = (Inr (), s)"
  by (simp add: process_post_def)

lemma process_post_processed:
  "str_int (id' p) \<in> set processed_posts \<Longrightarrow>
   process_post E processed_posts blocklist p s = (Inr (), s)"
  by (simp add: process_post_def Let_def split: option.splits)

lemma process_post_blocklisted:
  "url p = Some u \<Longrightarrow> str_int (id' p) \<notin> set processed_posts \<Longrightarrow>
   domain_of (tldextract_extract E (clean_url_of u)) \<in> set blocklist \<Longrightarrow>
   process_post E processed_posts blocklist p s =
     (Inr (), emit (Log DEBUG (BlocklistDomain (domain_of (tldextract_extract E (clean_url_of u)))
                                 (clean_url_of u) (ap_id p))) s)"
  by (simp add: process_post_def Let_def)

lemma process_post_fetches:
  "url p = Some u \<Longrightarrow> str_int (id' p) \<notin> set processed_posts \<Longrightarrow>
   domain_of (tldextract_extract E (clean_url_of u)) \<notin> set blocklist \<Longrightarrow>
   process_post E processed_posts blocklist p s =
     (case try_block E (str_int (id' p)) (clean_url_of u)
             (emit (Log INFO (SummarizeDomain (domain_of (tldextract_extract E (clean_url_of u)))
                                (clean_url_of u) (ap_id p))) s) of
        (Caught e, s2) \<Rightarrow>
          (Inr (), update_log (str_int (id' p))
             (emit (Log ERROR (FailedToProcess (str_int (id' p)) (ap_id p)
                       (domain_of (tldextract_extract E (clean_url_of u))) e)) s2))
      | (Propagated e, s2) \<Rightarrow> (Inl e, s2)
      | (Continue, s2) \<Rightarrow> (Inr (), s2)
      | (Summarized article_title article_date sd, s2) \<Rightarrow>
          gate E p (str_int (id' p)) (clean_url_of u) article_title article_date sd s2)"
  by (simp add: process_post_def Let_def)

lemma for_posts_skip:
  "process_post E processed_posts blocklist p s = (Inr (), s') \<Longrightarrow>
   for_posts E processed_posts blocklist (p # ps) s = for_posts E processed_posts blocklist ps s'"
  by simp

lemma str_replace_absent:
  "\<not> contains old s \<Longrightarrow> str_replace old new s = s"
  by (induction s) auto

lemma for_posts_unprocessed:
  "for_posts E processed_posts blocklist posts s
     = for_posts E processed_posts blocklist
         (filter (\<lambda>p. str_int (id' p) \<notin> set processed_posts) posts) s"
proof (induction posts arbitrary: s)
  case Nil
  show ?case by simp
next
  case (Cons q qs)
  show ?case
  proof (cases "str_int (id' q) \<in> set processed_posts")
    case True
    then show ?thesis
      using Cons.IH by (simp add: process_post_processed)
  next
    case False
    then show ?thesis
      using Cons.IH by (simp split: prod.splits sum.splits)
  qed
qed

text \<open>
  Claim C5. Let \<open>store\<close> be the lines of the processed-posts store at the start of a
  cycle (none while the file does not exist). \<^verbatim>\<open>load_log\<close> reads exactly these lines, and
  \<^verbatim>\<open>run_bot\<close> hands them to the loop. Whenever the blocklist is read, the login returns
  and \<^verbatim>\<open>get_posts_deep\<close> returns the feed, the cycle is the loop over the posts of the
  feed whose ids are not in \<open>store\<close>: a post whose id is in \<open>store\<close> is skipped before any
  work, the loop body leaves the state as it was (no fetch, no scrape or summarize call, no
  comment, no log line). In the other cycles (the blocklist file is missing, the login or
  a page request gives up) \<^verbatim>\<open>run_bot\<close> ends with that error before the loop, so it does no
  work for any post.
\<close>

theorem processed_posts_skipped:
  assumes "store = (case posts_log s of None \<Rightarrow> [] | Some ls \<Rightarrow> ls)"
  shows "load_log s = (store, s\<lparr>posts_log := Some store\<rparr>)
    \<and> (\<forall>p ps t. str_int (id' p) \<in> set store \<longrightarrow>
          process_post E store blocklist p t = (Inr (), t)
          \<and> for_posts E store blocklist (p # ps) t = for_posts E store blocklist ps t)
    \<and> (load_blocklist E = Inr blocklist \<longrightarrow>
        safe_api_call (LogIn username password) truthy_bool
          (log_in (Lemmy E domain) username password) (s\<lparr>posts_log := Some store\<rparr>) = (Inr ok, s2) \<longrightarrow>
        get_posts_deep (Lemmy E domain) None None None (Some ''New'') (Some ''Local'') s2 = (Inr posts, s3) \<longrightarrow>
          run_bot E domain username password s =
            for_posts E store blocklist
              (filter (\<lambda>p. str_int (id' p) \<notin> set store) posts)
              (s3\<lparr>trace := trace s3 @ [Log INFO (Loaded (length posts))]\<rparr>))
    \<and> (load_blocklist E = Inl e \<longrightarrow>
          run_bot E domain username password s = (Inl e, s\<lparr>posts_log := Some store\<rparr>))
    \<and> (load_blocklist E = Inr blocklist \<longrightarrow>
        safe_api_call (LogIn username password) truthy_bool
          (log_in (Lemmy E domain) username password) (s\<lparr>posts_log := Some store\<rparr>) = (Inl e, s2) \<longrightarrow>
          run_bot E domain username password s = (Inl e, s2))
    \<and> (load_blocklist E = Inr blocklist \<longrightarrow>
        safe_api_call (LogIn username password) truthy_bool
          (log_in (Lemmy E domain) username password) (s\<lparr>posts_log := Some store\<rparr>) = (Inr ok, s2) \<longrightarrow>
        get_posts_deep (Lemmy E domain) None None None (Some ''New'') (Some ''Local'') s2 = (Inl e, s3) \<longrightarrow>
          run_bot E domain username password s = (Inl e, s3))"
proof -
  have ll: "load_log s = (store, s\<lparr>posts_log := Some store\<rparr>)"
    unfolding assms by (cases "posts_log s") (simp_all add: load_log_def)
  have skip: "\<forall>p ps t. str_int (id' p) \<in> set store \<longrightarrow>
          process_post E store blocklist p t = (Inr (), t)
          \<and> for_posts E store blocklist (p # ps) t = for_posts E store blocklist ps t"
    by (simp add: process_post_processed)
  have run: "run_bot E domain username password s =
            for_posts E store blocklist
              (filter (\<lambda>p. str_int (id' p) \<notin> set store) posts)
              (s3\<lparr>trace := trace s3 @ [Log INFO (Loaded (length posts))]\<rparr>)"
    if bl: "load_blocklist E = Inr blocklist"
      and login: "safe_api_call (LogIn username password) truthy_bool
          (log_in (Lemmy E domain) username password) (s\<lparr>posts_log := Some store\<rparr>) = (Inr ok, s2)"
      and fetch: "get_posts_deep (Lemmy E domain) None None None (Some ''New'') (Some ''Local'') s2 = (Inr posts, s3)"
  proof -
    have "run_bot E domain username password s =
        for_posts E store blocklist posts (emit (Log INFO (Loaded (length posts))) s3)"
      unfolding run_bot_def ll
      by (simp only: prod.case Let_def bl sum.case login fetch)
    also have "\<dots> = for_posts E store blocklist
        (filter (\<lambda>p. str_int (id' p) \<notin> set store) posts) (emit (Log INFO (Loaded (length posts))) s3)"
      by (rule for_posts_unprocessed)
    finally show ?thesis
      by (simp add: emit_def)
  qed
  have no_blocklist: "run_bot E domain username password s = (Inl e, s\<lparr>posts_log := Some store\<rparr>)"
    if bl: "load_blocklist E = Inl e"
    unfolding run_bot_def ll
    by (simp only: prod.case Let_def bl sum.case)
  have no_login: "run_bot E domain username password s = (Inl e, s2)"
    if bl: "load_blocklist E = Inr blocklist"
      and login: "safe_api_call (LogIn username password) truthy_bool
          (log_in (Lemmy E domain) username password) (s\<lparr>posts_log := Some store\<rparr>) = (Inl e, s2)"
    unfolding run_bot_def ll
    by (simp only: prod.case Let_def bl sum.case login)
  have no_feed: "run_bot E domain username password s = (Inl e, s3)"
    if bl: "load_blocklist E = Inr blocklist"
      and login: "safe_api_call (LogIn username password) truthy_bool
          (log_in (Lemmy E domain) username password) (s\<lparr>posts_log := Some store\<rparr>) = (Inr ok, s2)"
      and fetch: "get_posts_deep (Lemmy E domain) None None None (Some ''New'') (Some ''Local'') s2 = (Inl e, s3)"
    unfolding run_bot_def ll
    by (simp only: prod.case Let_def bl sum.case login fetch)
  from ll skip run no_blocklist no_login no_feed show ?thesis
    by blast
qed

text \<open>
  The theorem of C5 at a cycle over the sample feed that starts with the id of \<open>p1\<close> in
  the store: the login and the five page requests return, the loop runs over the six other
  posts of the feed, and the cycle ends without any fetch of the article of \<open>p1\<close>. The
  second part is a cycle without blocklist file.
\<close>

theorem processed_posts_skipped_witness:
  "[''1''] = (case posts_log \<lparr>world = 0::nat, posts_log = Some [''1''], trace = []\<rparr> of
                None \<Rightarrow> [] | Some ls \<Rightarrow> ls)
   \<and> str_int (id' p1) \<in> set [''1'']
   \<and> process_post feed_env [''1''] [''imgur.com''] p1 \<lparr>world = 0, posts_log = Some [''1''], trace = []\<rparr>
       = (Inr (), \<lparr>world = 0, posts_log = Some [''1''], trace = []\<rparr>)
   \<and> load_blocklist feed_env = Inr [''imgur.com'']
   \<and> safe_api_call (LogIn ''bot'' ''pw'') truthy_bool (log_in (Lemmy feed_env ''lemmy.test'') ''bot'' ''pw'')
         \<lparr>world = 0, posts_log = Some [''1''], trace = []\<rparr>
       = (Inr True, \<lparr>world = 1, posts_log = Some [''1''], trace = [Invoke (LogIn ''bot'' ''pw'')]\<rparr>)
   \<and> fst (get_posts_deep (Lemmy feed_env ''lemmy.test'') None None None (Some ''New'') (Some ''Local'')
         \<lparr>world = 1, posts_log = Some [''1''], trace = [Invoke (LogIn ''bot'' ''pw'')]\<rparr>)
       = Inr [p1, p2, p3, post (sample_view 2 0), post (sample_view 3 0), post (sample_view 4 0),
              post (sample_view 5 0)]
   \<and> run_bot feed_env ''lemmy.test'' ''bot'' ''pw'' \<lparr>world = 0, posts_log = Some [''1''], trace = []\<rparr>
       = (Inr (),
          \<lparr>world = 7, posts_log = Some [''1'', ''3''],
           trace =
            [Invoke (LogIn ''bot'' ''pw''),
             Invoke (PostList \<lparr>community_id = None, community_name = None, sort' = Some ''New'', type_ = Some ''Local'', page = 1\<rparr>),
             Invoke (PostList \<lparr>community_id = None, community_name = None, sort' = Some ''New'', type_ = Some ''Local'', page = 2\<rparr>),
             Invoke (PostList \<lparr>community_id = None, community_name = None, sort' = Some ''New'', type_ = Some ''Local'', page = 3\<rparr>),
             Invoke (PostList \<lparr>community_id = None, community_name = None, sort' = Some ''New'', type_ = Some ''Local'', page = 4\<rparr>),
             Invoke (PostList \<lparr>community_id = None, community_name = None, sort' = Some ''New'', type_ = Some ''Local'', page = 5\<rparr>),
             Log INFO (Loaded 7),
             Log DEBUG (BlocklistDomain ''imgur.com'' ''http://i.imgur.com/x'' ''ap2''),
             Log INFO (SummarizeDomain ''down.test'' ''http://down.test/a'' ''ap3''),
             HttpGet ''http://down.test/a'',
             Log ERROR (FailedToProcess ''3'' ''ap3'' ''down.test'' (Raised ''ConnectionError''))]\<rparr>)
   \<and> load_blocklist (feed_env\<lparr>BLOCKLIST_FILE := None\<rparr>) = Inl (FileNotFoundError ''./assets/blocklist.txt'')
   \<and> run_bot (feed_env\<lparr>BLOCKLIST_FILE := None\<rparr>) ''lemmy.test'' ''bot'' ''pw''
         \<lparr>world = 0, posts_log = Some [''1''], trace = []\<rparr>
       = (Inl (FileNotFoundError ''./assets/blocklist.txt''),
          \<lparr>world = 0, posts_log = Some [''1''], trace = []\<rparr>)"
proof -
  let ?s = "\<lparr>world = 0::nat, posts_log = Some [''1''], trace = []\<rparr>"
  let ?s2 = "\<lparr>world = 1::nat, posts_log = Some [''1''], trace = [Invoke (LogIn ''bot'' ''pw'')]\<rparr>"
  let ?s3 = "\<lparr>world = 6::nat, posts_log = Some [''1''],
     trace = [Invoke (LogIn ''bot'' ''pw''),
             Invoke (PostList \<lparr>community_id = None, community_name = None, sort' = Some ''New'', type_ = Some ''Local'', page = 1\<rparr>),
             Invoke (PostList \<lparr>community_id = None, community_name = None, sort' = Some ''New'', type_ = Some ''Local'', page = 2\<rparr>),
             Invoke (PostList \<lparr>community_id = None, community_name = None, sort' = Some ''New'', type_ = Some ''Local'', page = 3\<rparr>),
             Invoke (PostList \<lparr>community_id = None, community_name = None, sort' = Some ''New'', type_ = Some ''Local'', page = 4\<rparr>),
             Invoke (PostList \<lparr>community_id = None, community_name = None, sort' = Some ''New'', type_ = Some ''Local'', page = 5\<rparr>)]\<rparr>"
  let ?posts = "[p1, p2, p3, post (sample_view 2 0), post (sample_view 3 0), post (sample_view 4 0),
              post (sample_view 5 0)]"
  have st: "[''1''] = (case posts_log ?s of None \<Rightarrow> [] | Some ls \<Rightarrow> ls)"
    by simp
  have same: "?s\<lparr>posts_log := Some [''1'']\<rparr> = ?s"
    by simp
  have i: "str_int (id' p1) \<in> set [''1'']"
    by (simp add: p1_def str_int_def)
  have bl: "load_blocklist feed_env = Inr [''imgur.com'']"
    by (simp add: load_blocklist_def feed_env_def sample_env_def)
  have nbl: "load_blocklist (feed_env\<lparr>BLOCKLIST_FILE := None\<rparr>) = Inl (FileNotFoundError ''./assets/blocklist.txt'')"
    by (simp add: load_blocklist_def)
  have login: "safe_api_call (LogIn ''bot'' ''pw'') truthy_bool
      (log_in (Lemmy feed_env ''lemmy.test'') ''bot'' ''pw'') (?s\<lparr>posts_log := Some [''1'']\<rparr>) = (Inr True, ?s2)"
    by (simp add: safe_api_call_first_try feed_env_def sample_env_def feed_lemmy_of_def
        sample_login_def truthy_bool_def)
  have fetch: "get_posts_deep (Lemmy feed_env ''lemmy.test'') None None None (Some ''New'') (Some ''Local'') ?s2
      = (Inr ?posts, ?s3)"
    by (simp add: get_posts_deep_def upt_conv_Cons safe_api_call_first_try feed_env_def sample_env_def
        feed_lemmy_of_def feed_page_def truthy_list_def page_kwargs_def kept_def Let_def
        p1_def p2_def p3_def sample_view_def)
  note inst = processed_posts_skipped [OF st]
  from inst [THEN conjunct2, THEN conjunct1, rule_format, OF i]
  have skip: "process_post feed_env [''1''] [''imgur.com''] p1 ?s = (Inr (), ?s)"
    by (rule conjunct1)
  have keep: "filter (\<lambda>p. str_int (id' p) \<notin> set [''1'']) ?posts
      = [p2, p3, post (sample_view 2 0), post (sample_view 3 0), post (sample_view 4 0),
         post (sample_view 5 0)]"
    by (simp add: p1_def p2_def p3_def sample_view_def str_int_def)
  have loop: "for_posts feed_env [''1''] [''imgur.com'']
        [p2, p3, post (sample_view 2 0), post (sample_view 3 0), post (sample_view 4 0),
         post (sample_view 5 0)]
        (?s3\<lparr>trace := trace ?s3 @ [Log INFO (Loaded (length ?posts))]\<rparr>)
      = (Inr (),
          \<lparr>world = 7, posts_log = Some [''1'', ''3''],
           trace =
            [Invoke (LogIn ''bot'' ''pw''),
             Invoke (PostList \<lparr>community_id = None, community_name = None, sort' = Some ''New'', type_ = Some ''Local'', page = 1\<rparr>),
             Invoke (PostList \<lparr>community_id = None, community_name = None, sort' = Some ''New'', type_ = Some ''Local'', page = 2\<rparr>),
             Invoke (PostList \<lparr>community_id = None, community_name = None, sort' = Some ''New'', type_ = Some ''Local'', page = 3\<rparr>),
             Invoke (PostList \<lparr>community_id = None, community_name = None, sort' = Some ''New'', type_ = Some ''Local'', page = 4\<rparr>),
             Invoke (PostList \<lparr>community_id = None, community_name = None, sort' = Some ''New'', type_ = Some ''Local'', page = 5\<rparr>),
             Log INFO (Loaded 7),
             Log DEBUG (BlocklistDomain ''imgur.com'' ''http://i.imgur.com/x'' ''ap2''),
             Log INFO (SummarizeDomain ''down.test'' ''http://down.test/a'' ''ap3''),
             HttpGet ''http://down.test/a'',
             Log ERROR (FailedToProcess ''3'' ''ap3'' ''down.test'' (Raised ''ConnectionError''))]\<rparr>)"
    by (simp add: feed_env_def sample_defs sample_view_def run_defs)
  from inst [THEN conjunct2, THEN conjunct2, THEN conjunct1, rule_format, OF bl login fetch]
  have run: "run_bot feed_env ''lemmy.test'' ''bot'' ''pw'' ?s
      = (Inr (),
          \<lparr>world = 7, posts_log = Some [''1'', ''3''],
           trace =
            [Invoke (LogIn ''bot'' ''pw''),
             Invoke (PostList \<lparr>community_id = None, community_name = None, sort' = Some ''New'', type_ = Some ''Local'', page = 1\<rparr>),
             Invoke (PostList \<lparr>community_id = None, community_name = None, sort' = Some ''New'', type_ = Some ''Local'', page = 2\<rparr>),
             Invoke (PostList \<lparr>community_id = None, community_name = None, sort' = Some ''New'', type_ = Some ''Local'', page = 3\<rparr>),
             Invoke (PostList \<lparr>community_id = None, community_name = None, sort' = Some ''New'', type_ = Some ''Local'', page = 4\<rparr>),
             Invoke (PostList \<lparr>community_id = None, community_name = None, sort' = Some ''New'', type_ = Some ''Local'', page = 5\<rparr>),
             Log INFO (Loaded 7),
             Log DEBUG (BlocklistDomain ''imgur.com'' ''http://i.imgur.com/x'' ''ap2''),
             Log INFO (SummarizeDomain ''down.test'' ''http://down.test/a'' ''ap3''),
             HttpGet ''http://down.test/a'',
             Log ERROR (FailedToProcess ''3'' ''ap3'' ''down.test'' (Raised ''ConnectionError''))]\<rparr>)"
    unfolding keep loop .
  from inst [THEN conjunct2, THEN conjunct2, THEN conjunct2, THEN conjunct1, rule_format, OF nbl]
  have stop: "run_bot (feed_env\<lparr>BLOCKLIST_FILE := None\<rparr>) ''lemmy.test'' ''bot'' ''pw'' ?s
      = (Inl (FileNotFoundError ''./assets/blocklist.txt''), ?s)"
    unfolding same .
  have fetch': "fst (get_posts_deep (Lemmy feed_env ''lemmy.test'') None None None (Some ''New'') (Some ''Local'') ?s2)
      = Inr ?posts"
    unfolding fetch by simp
  from st i skip bl login [unfolded same] fetch' run nbl stop show ?thesis
    by (intro conjI)
qed

text \<open>
  Claim C1, as the code has it. \<^verbatim>\<open>run_bot\<close> compares the blocklist with the registrable
  domain of the normalized URL (the URL without its occurrences of \<^verbatim>\<open>amp.\<close>). Take a post
  whose URL has its registrable domain in the blocklist, and whose URL either holds no
  \<^verbatim>\<open>amp.\<close> or keeps its registrable domain under the normalization. For this post the loop
  body fetches nothing and calls no later stage: apart from one debug log line it leaves
  the state as it was. The world and the processed-posts store are unchanged, so the id of
  the post is not written, and the loop goes on with the next post.
\<close>

theorem blocklisted_post_not_fetched:
  assumes "url p = Some u"
    and "domain_of (tldextract_extract E u) \<in> set blocklist"
    and "\<not> contains ''amp.'' u
         \<or> domain_of (tldextract_extract E (clean_url_of u)) = domain_of (tldextract_extract E u)"
  shows "process_post E processed_posts blocklist p s =
      (Inr (), if str_int (id' p) \<in> set processed_posts then s
               else s\<lparr>trace := trace s @
                      [Log DEBUG (BlocklistDomain (domain_of (tldextract_extract E u))
                                    (clean_url_of u) (ap_id p))]\<rparr>)
    \<and> world (snd (process_post E processed_posts blocklist p s)) = world s
    \<and> posts_log (snd (process_post E processed_posts blocklist p s)) = posts_log s
    \<and> for_posts E processed_posts blocklist (p # ps) s =
        for_posts E processed_posts blocklist ps (snd (process_post E processed_posts blocklist p s))"
proof -
  have same: "domain_of (tldextract_extract E (clean_url_of u)) = domain_of (tldextract_extract E u)"
    using assms(3) by (auto simp add: clean_url_of_def str_replace_absent)
  show ?thesis
  proof (cases "str_int (id' p) \<in> set processed_posts")
    case True
    then show ?thesis
      by (simp add: process_post_processed)
  next
    case False
    have "domain_of (tldextract_extract E (clean_url_of u)) \<in> set blocklist"
      unfolding same by (rule assms(2))
    with assms(1) False show ?thesis
      by (simp add: process_post_blocklisted emit_def same)
  qed
qed

text \<open>
  The theorem of C1 at the post \<open>p2\<close> of the blocklisted host, whose URL holds no
  \<^verbatim>\<open>amp.\<close>, and at the AMP mirror \<open>p1\<close> with its host in the blocklist.
\<close>

theorem blocklisted_post_not_fetched_witness:
  "url p2 = Some ''http://i.imgur.com/x''
   \<and> domain_of (tldextract_extract (sample_env 75) ''http://i.imgur.com/x'') \<in> set [''imgur.com'']
   \<and> \<not> contains ''amp.'' ''http://i.imgur.com/x''
   \<and> process_post (sample_env 75) [] [''imgur.com''] p2 started =
       (Inr (), \<lparr>world = 0, posts_log = Some [],
                 trace = [Log DEBUG (BlocklistDomain ''imgur.com'' ''http://i.imgur.com/x'' ''ap2'')]\<rparr>)
   \<and> url p1 = Some ''http://amp.example.com/a''
   \<and> domain_of (tldextract_extract (sample_env 75) ''http://amp.example.com/a'') \<in> set [''example.com'']
   \<and> domain_of (tldextract_extract (sample_env 75) (clean_url_of ''http://amp.example.com/a''))
       = domain_of (tldextract_extract (sample_env 75) ''http://amp.example.com/a'')
   \<and> process_post (sample_env 75) [] [''example.com''] p1 started =
       (Inr (), \<lparr>world = 0, posts_log = Some [],
                 trace = [Log DEBUG (BlocklistDomain ''example.com'' ''http://example.com/a'' ''ap1'')]\<rparr>)"
proof -
  have a: "url p2 = Some ''http://i.imgur.com/x''"
    by (simp add: p2_def)
  have b: "domain_of (tldextract_extract (sample_env 75) ''http://i.imgur.com/x'') \<in> set [''imgur.com'']"
    by (simp add: sample_env_def sample_extract_def domain_of_def)
  have c: "\<not> contains ''amp.'' ''http://i.imgur.com/x''"
    by (simp add: startswith_def)
  have d: "domain_of (tldextract_extract (sample_env 75) ''http://i.imgur.com/x'') = ''imgur.com''"
    by (simp add: sample_env_def sample_extract_def domain_of_def)
  have e: "clean_url_of ''http://i.imgur.com/x'' = ''http://i.imgur.com/x''"
    by (simp add: clean_url_of_def startswith_def)
  have two: "process_post (sample_env 75) [] [''imgur.com''] p2 started =
       (Inr (), \<lparr>world = 0, posts_log = Some [],
                 trace = [Log DEBUG (BlocklistDomain ''imgur.com'' ''http://i.imgur.com/x'' ''ap2'')]\<rparr>)"
    using blocklisted_post_not_fetched [OF a b disjI1 [OF c], of "[]" started "[]", THEN conjunct1]
    by (simp add: d e p2_def started_def)
  have f: "url p1 = Some ''http://amp.example.com/a''"
    by (simp add: p1_def)
  have g: "domain_of (tldextract_extract (sample_env 75) ''http://amp.example.com/a'') \<in> set [''example.com'']"
    by (simp add: sample_env_def sample_extract_def domain_of_def)
  have h: "clean_url_of ''http://amp.example.com/a'' = ''http://example.com/a''"
    by (simp add: clean_url_of_def startswith_def)
  have i: "domain_of (tldextract_extract (sample_env 75) (clean_url_of ''http://amp.example.com/a''))
       = domain_of (tldextract_extract (sample_env 75) ''http://amp.example.com/a'')"
    unfolding h by (simp add: sample_env_def sample_extract_def domain_of_def)
  have j: "domain_of (tldextract_extract (sample_env 75) ''http://amp.example.com/a'') = ''example.com''"
    by (simp add: sample_env_def sample_extract_def domain_of_def)
  have one: "process_post (sample_env 75) [] [''example.com''] p1 started =
       (Inr (), \<lparr>world = 0, posts_log = Some [],
                 trace = [Log DEBUG (BlocklistDomain ''example.com'' ''http://example.com/a'' ''ap1'')]\<rparr>)"
    using blocklisted_post_not_fetched [OF f g disjI2 [OF i], of "[]" started "[]", THEN conjunct1]
    by (simp add: h j p1_def started_def)
  from a b c two f g i one show ?thesis
    by (intro conjI)
qed

text \<open>
  Claim C1 as written has the id of a blocklisted post written to the store. The sample
  feed holds the post \<open>p2\<close> of a blocklisted host. After a whole cycle over this feed the
  store holds the ids of \<open>p1\<close> and \<open>p3\<close>, and not the id \<open>2\<close> of \<open>p2\<close>.
\<close>

theorem blocklisted_post_not_logged_counterexample:
  "fst (run_bot feed_env ''lemmy.test'' ''bot'' ''pw'' (fresh 0)) = Inr ()
   \<and> log_lines (snd (run_bot feed_env ''lemmy.test'' ''bot'' ''pw'' (fresh 0))) = [''1'', ''3'']
   \<and> ''2'' \<notin> set (log_lines (snd (run_bot feed_env ''lemmy.test'' ''bot'' ''pw'' (fresh 0))))
   \<and> str_int (id' p2) = ''2''
   \<and> domain_of (tldextract_extract feed_env (clean_url_of ''http://i.imgur.com/x''))
       \<in> set [''imgur.com'']"
  by (simp add: feed_defs sample_defs run_defs upt_conv_Cons)

section \<open>Properties of the try block, the gate and the comment\<close>

lemma try_block_get_raises:
  "requests_get E cu (world s) = (Inl e, w) \<Longrightarrow>
   try_block E post_id cu s =
     (except_Exception e, s\<lparr>world := w, trace := trace s @ [HttpGet cu]\<rparr>)"
  by (simp add: try_block_def emit_def)

lemma try_block_no_content_type:
  "requests_get E cu (world s) = (Inr r, w) \<Longrightarrow> content_type r = None \<Longrightarrow>
   try_block E post_id cu s =
     (except_Exception (KeyError ''content-type''),
      s\<lparr>world := w, trace := trace s @ [HttpGet cu]\<rparr>)"
  by (simp add: try_block_def emit_def)

lemma try_block_media:
  "requests_get E cu (world s) = (Inr r, w) \<Longrightarrow> content_type r = Some ct \<Longrightarrow>
   ct \<in> set media_types \<Longrightarrow>
   try_block E post_id cu s =
     (Continue, s\<lparr>world := w, posts_log := Some (log_lines s @ [post_id]),
                  trace := trace s @ [HttpGet cu, Log INFO (BlockContentType ct)]\<rparr>)"
  by (simp add: try_block_def emit_def update_log_def log_lines_def)

lemma try_block_scrape_raises:
  "requests_get E cu (world s) = (Inr r, w) \<Longrightarrow> content_type r = Some ct \<Longrightarrow>
   ct \<notin> set media_types \<Longrightarrow> scrape_html E (text_of E (fix_encoding E r)) = Inl e \<Longrightarrow>
   try_block E post_id cu s =
     (except_Exception e,
      s\<lparr>world := w, trace := trace s @ [HttpGet cu, ScrapeHtml (text_of E (fix_encoding E r))]\<rparr>)"
  by (simp add: try_block_def emit_def Let_def)

lemma try_block_summary_raises:
  "requests_get E cu (world s) = (Inr r, w) \<Longrightarrow> content_type r = Some ct \<Longrightarrow>
   ct \<notin> set media_types \<Longrightarrow> scrape_html E (text_of E (fix_encoding E r)) = Inr (t, d, b) \<Longrightarrow>
   get_summary E b = Inl e \<Longrightarrow>
   try_block E post_id cu s =
     (except_Exception e,
      s\<lparr>world := w,
        trace := trace s @ [HttpGet cu, ScrapeHtml (text_of E (fix_encoding E r)), GetSummary b]\<rparr>)"
  by (simp add: try_block_def emit_def Let_def)

lemma try_block_summarized:
  "requests_get E cu (world s) = (Inr r, w) \<Longrightarrow> content_type r = Some ct \<Longrightarrow>
   ct \<notin> set media_types \<Longrightarrow> scrape_html E (text_of E (fix_encoding E r)) = Inr (t, d, b) \<Longrightarrow>
   get_summary E b = Inr sd \<Longrightarrow>
   try_block E post_id cu s =
     (Summarized t d sd,
      s\<lparr>world := w,
        trace := trace s @ [HttpGet cu, ScrapeHtml (text_of E (fix_encoding E r)), GetSummary b]\<rparr>)"
  by (simp add: try_block_def emit_def Let_def)

lemma process_post_caught:
  assumes "url p = Some u"
    and "str_int (id' p) \<notin> set processed_posts"
    and "domain_of (tldextract_extract E (clean_url_of u)) \<notin> set blocklist"
    and "try_block E (str_int (id' p)) (clean_url_of u)
           (emit (Log INFO (SummarizeDomain (domain_of (tldextract_extract E (clean_url_of u)))
                              (clean_url_of u) (ap_id p))) s) = (Caught e, s2)"
  shows "process_post E processed_posts blocklist p s =
     (Inr (), s2\<lparr>posts_log := Some (log_lines s2 @ [str_int (id' p)]),
                 trace := trace s2 @ [Log ERROR (FailedToProcess (str_int (id' p)) (ap_id p)
                             (domain_of (tldextract_extract E (clean_url_of u))) e)]\<rparr>)"
  unfolding process_post_fetches [OF assms(1-3)] assms(4)
  by (simp add: update_log_def emit_def log_lines_def)

lemma process_post_propagated:
  assumes "url p = Some u"
    and "str_int (id' p) \<notin> set processed_posts"
    and "domain_of (tldextract_extract E (clean_url_of u)) \<notin> set blocklist"
    and "try_block E (str_int (id' p)) (clean_url_of u)
           (emit (Log INFO (SummarizeDomain (domain_of (tldextract_extract E (clean_url_of u)))
                              (clean_url_of u) (ap_id p))) s) = (Propagated e, s2)"
  shows "process_post E processed_posts blocklist p s = (Inl e, s2)"
  unfolding process_post_fetches [OF assms(1-3)] assms(4)
  by simp

lemma comments_append: "comments (xs @ ys) = comments xs @ comments ys"
  by (induction xs rule: comments.induct) simp_all

text \<open>
  Claim C6, as the code has it. An error raised inside the \<^verbatim>\<open>try\<close> block, that is by
  \<^verbatim>\<open>requests.get\<close>, by the lookup of the \<^verbatim>\<open>content-type\<close> header, by
  \<^verbatim>\<open>scraper.scrape_html\<close> or by \<^verbatim>\<open>summary.get_summary\<close>, is caught in the loop body
  when it is an instance of \<^verbatim>\<open>Exception\<close>: the failure is logged last, the post id is
  written to the processed store, no comment is made and the loop goes on with the next
  post. An exception that is no \<^verbatim>\<open>Exception\<close> (a keyboard interrupt, a system exit)
  passes the handler: the loop ends with it and nothing is written. The gate and the
  rendering of the comment come after the \<^verbatim>\<open>try\<close> statement and are not covered by it.
\<close>

theorem try_block_errors_caught:
  assumes "url p = Some u"
    and "str_int (id' p) \<notin> set processed_posts"
    and "domain_of (tldextract_extract E (clean_url_of u)) \<notin> set blocklist"
    and "requests_get E (clean_url_of u) (world s) = (got, w)"
    and "got = Inl e
       \<or> (\<exists>r. got = Inr r \<and> content_type r = None \<and> e = KeyError ''content-type'')
       \<or> (\<exists>r ct. got = Inr r \<and> content_type r = Some ct \<and> ct \<notin> set media_types
            \<and> scrape_html E (text_of E (fix_encoding E r)) = Inl e)
       \<or> (\<exists>r ct t d b. got = Inr r \<and> content_type r = Some ct \<and> ct \<notin> set media_types
            \<and> scrape_html E (text_of E (fix_encoding E r)) = Inr (t, d, b)
            \<and> get_summary E b = Inl e)"
  shows "(is_exception e \<longrightarrow>
      (\<exists>s'. process_post E processed_posts blocklist p s = (Inr (), s')
         \<and> world s' = w
         \<and> posts_log s' = Some (log_lines s @ [str_int (id' p)])
         \<and> last (trace s') = Log ERROR (FailedToProcess (str_int (id' p)) (ap_id p)
                                 (domain_of (tldextract_extract E (clean_url_of u))) e)
         \<and> comments (trace s') = comments (trace s)
         \<and> for_posts E processed_posts blocklist (p # ps) s
             = for_posts E processed_posts blocklist ps s'))
    \<and> (\<not> is_exception e \<longrightarrow>
      (\<exists>s'. process_post E processed_posts blocklist p s = (Inl e, s')
         \<and> world s' = w
         \<and> posts_log s' = posts_log s
         \<and> comments (trace s') = comments (trace s)
         \<and> for_posts E processed_posts blocklist (p # ps) s = (Inl e, s')))"
proof -
  let ?dom = "domain_of (tldextract_extract E (clean_url_of u))"
  let ?s1 = "emit (Log INFO (SummarizeDomain ?dom (clean_url_of u) (ap_id p))) s"
  have get: "requests_get E (clean_url_of u) (world ?s1) = (got, w)"
    using assms(4) by (simp add: emit_def)
  have "\<exists>evs. try_block E (str_int (id' p)) (clean_url_of u) ?s1 =
      (except_Exception e, ?s1\<lparr>world := w, trace := trace ?s1 @ evs\<rparr>) \<and> comments evs = []"
    using assms(5)
  proof (elim disjE exE conjE)
    assume "got = Inl e"
    with get show ?thesis
      by (auto simp add: try_block_get_raises intro!: exI [of _ "[HttpGet (clean_url_of u)]"])
  next
    fix r assume "got = Inr r" "content_type r = None" "e = KeyError ''content-type''"
    with get show ?thesis
      by (auto simp add: try_block_no_content_type intro!: exI [of _ "[HttpGet (clean_url_of u)]"])
  next
    fix r ct assume "got = Inr r" "content_type r = Some ct" "ct \<notin> set media_types"
      "scrape_html E (text_of E (fix_encoding E r)) = Inl e"
    with get show ?thesis
      by (auto simp add: try_block_scrape_raises
          intro!: exI [of _ "[HttpGet (clean_url_of u), ScrapeHtml (text_of E (fix_encoding E r))]"])
  next
    fix r ct t d b assume "got = Inr r" "content_type r = Some ct" "ct \<notin> set media_types"
      "scrape_html E (text_of E (fix_encoding E r)) = Inr (t, d, b)" "get_summary E b = Inl e"
    with get show ?thesis
      by (auto simp add: try_block_summary_raises
          intro!: exI [of _ "[HttpGet (clean_url_of u), ScrapeHtml (text_of E (fix_encoding E r)), GetSummary b]"])
  qed
  then obtain evs where tb: "try_block E (str_int (id' p)) (clean_url_of u) ?s1 =
      (except_Exception e, ?s1\<lparr>world := w, trace := trace ?s1 @ evs\<rparr>)"
    and ce: "comments evs = []"
    by blast
  show ?thesis
  proof (cases "is_exception e")
    case True
    with tb have "try_block E (str_int (id' p)) (clean_url_of u) ?s1 =
        (Caught e, ?s1\<lparr>world := w, trace := trace ?s1 @ evs\<rparr>)"
      by (simp add: except_Exception_def)
    note pp = process_post_caught [OF assms(1-3) this]
    show ?thesis
      using True ce for_posts_skip [OF pp, of ps]
      by (simp add: pp emit_def log_lines_def comments_append)
  next
    case False
    with tb have "try_block E (str_int (id' p)) (clean_url_of u) ?s1 =
        (Propagated e, ?s1\<lparr>world := w, trace := trace ?s1 @ evs\<rparr>)"
      by (simp add: except_Exception_def)
    note pp = process_post_propagated [OF assms(1-3) this]
    show ?thesis
      using False ce by (simp add: pp emit_def comments_append)
  qed
qed

text \<open>
  The theorem of C6 at the post \<open>p3\<close>, whose fetch raises a connection error, and at the
  post \<open>p1\<close> in the world whose summarizer is interrupted from the keyboard.
\<close>

theorem try_block_errors_caught_witness:
  "is_exception (Raised ''ConnectionError'')
   \<and> process_post (sample_env 75) [] [''imgur.com''] p3 started =
       (Inr (), \<lparr>world = 1, posts_log = Some [''3''],
                 trace = [Log INFO (SummarizeDomain ''down.test'' ''http://down.test/a'' ''ap3''),
                          HttpGet ''http://down.test/a'',
                          Log ERROR (FailedToProcess ''3'' ''ap3'' ''down.test''
                                       (Raised ''ConnectionError''))]\<rparr>)
   \<and> \<not> is_exception KeyboardInterrupt
   \<and> fst (process_post interrupted_env [] [''imgur.com''] p1 started) = Inl KeyboardInterrupt
   \<and> posts_log (snd (process_post interrupted_env [] [''imgur.com''] p1 started)) = Some []"
proof -
  have c: "clean_url_of ''http://down.test/a'' = ''http://down.test/a''"
    "clean_url_of ''http://amp.example.com/a'' = ''http://example.com/a''"
    by (simp_all add: clean_url_of_def startswith_def)
  have a1: "url p3 = Some ''http://down.test/a''"
    by (simp add: p3_def)
  have a2: "str_int (id' p3) \<notin> set []"
    by simp
  have a3: "domain_of (tldextract_extract (sample_env 75) (clean_url_of ''http://down.test/a''))
       \<notin> set [''imgur.com'']"
    by (simp add: c sample_env_def sample_extract_def domain_of_def)
  have a4: "requests_get (sample_env 75) (clean_url_of ''http://down.test/a'') (world started)
       = (Inl (Raised ''ConnectionError''), 1)"
    by (simp add: c sample_env_def sample_get_def started_def)
  have a5: "Inl (Raised ''ConnectionError'') = Inl (Raised ''ConnectionError'')
       \<or> (\<exists>r. Inl (Raised ''ConnectionError'') = Inr r \<and> content_type r = None
             \<and> Raised ''ConnectionError'' = KeyError ''content-type'')
       \<or> (\<exists>r ct. Inl (Raised ''ConnectionError'') = Inr r \<and> content_type r = Some ct
             \<and> ct \<notin> set media_types
             \<and> scrape_html (sample_env 75) (text_of (sample_env 75) (fix_encoding (sample_env 75) r))
                 = Inl (Raised ''ConnectionError''))
       \<or> (\<exists>r ct t d b. Inl (Raised ''ConnectionError'') = Inr r \<and> content_type r = Some ct
             \<and> ct \<notin> set media_types
             \<and> scrape_html (sample_env 75) (text_of (sample_env 75) (fix_encoding (sample_env 75) r))
                 = Inr (t, d, b)
             \<and> get_summary (sample_env 75) b = Inl (Raised ''ConnectionError''))"
    by simp
  have d: "domain_of (tldextract_extract (sample_env 75) ''http://down.test/a'') = ''down.test''"
    by (simp add: sample_env_def sample_extract_def domain_of_def)
  have i: "str_int (id' p3) = ''3''" "ap_id p3 = ''ap3''"
    by (simp_all add: p3_def str_int_def)
  have x: "is_exception (Raised ''ConnectionError'')"
    by simp
  from try_block_errors_caught [OF a1 a2 a3 a4 a5, of "[]", THEN conjunct1, rule_format, OF x]
  obtain s' where r: "process_post (sample_env 75) [] [''imgur.com''] p3 started = (Inr (), s')"
    and "world s' = 1" "posts_log s' = Some [''3'']"
    by (auto simp add: c i log_lines_def started_def)
  have first: "process_post (sample_env 75) [] [''imgur.com''] p3 started =
       (Inr (), \<lparr>world = 1, posts_log = Some [''3''],
                 trace = [Log INFO (SummarizeDomain ''down.test'' ''http://down.test/a'' ''ap3''),
                          HttpGet ''http://down.test/a'',
                          Log ERROR (FailedToProcess ''3'' ''ap3'' ''down.test''
                                       (Raised ''ConnectionError''))]\<rparr>)"
    using r by (simp add: sample_defs run_defs)
  let ?r = "\<lparr>content_type = Some ''text/html'', content = ''<p>'', encoding = Some ''utf-8''\<rparr>"
  have b1: "url p1 = Some ''http://amp.example.com/a''"
    by (simp add: p1_def)
  have b2: "str_int (id' p1) \<notin> set []"
    by simp
  have b3: "domain_of (tldextract_extract interrupted_env (clean_url_of ''http://amp.example.com/a''))
       \<notin> set [''imgur.com'']"
    by (simp add: c interrupted_env_def sample_env_def sample_extract_def domain_of_def)
  have b4: "requests_get interrupted_env (clean_url_of ''http://amp.example.com/a'') (world started)
       = (Inr ?r, 1)"
    by (simp add: c interrupted_env_def sample_env_def sample_get_def started_def)
  have b5: "Inr ?r = Inl KeyboardInterrupt
       \<or> (\<exists>r. Inr ?r = Inr r \<and> content_type r = None \<and> KeyboardInterrupt = KeyError ''content-type'')
       \<or> (\<exists>r ct. Inr ?r = Inr r \<and> content_type r = Some ct \<and> ct \<notin> set media_types
             \<and> scrape_html interrupted_env (text_of interrupted_env (fix_encoding interrupted_env r))
                 = Inl KeyboardInterrupt)
       \<or> (\<exists>r ct t d b. Inr ?r = Inr r \<and> content_type r = Some ct \<and> ct \<notin> set media_types
             \<and> scrape_html interrupted_env (text_of interrupted_env (fix_encoding interrupted_env r))
                 = Inr (t, d, b)
             \<and> get_summary interrupted_env b = Inl KeyboardInterrupt)"
    by (simp add: interrupted_env_def interrupted_summary_def sample_env_def sample_scrape_def
        media_types_def)
  have y: "\<not> is_exception KeyboardInterrupt"
    by simp
  from try_block_errors_caught [OF b1 b2 b3 b4 b5, of "[]", THEN conjunct2, rule_format, OF y]
  obtain s'' where "process_post interrupted_env [] [''imgur.com''] p1 started = (Inl KeyboardInterrupt, s'')"
    and "posts_log s'' = posts_log started"
    by blast
  then have second: "fst (process_post interrupted_env [] [''imgur.com''] p1 started) = Inl KeyboardInterrupt
      \<and> posts_log (snd (process_post interrupted_env [] [''imgur.com''] p1 started)) = Some []"
    by (simp add: started_def)
  from first second show ?thesis
    by simp
qed

text \<open>
  Claim C6 as written has every error of a later per-post stage caught too. With a
  template of six fields, rendering the comment of \<open>p1\<close> raises \<^verbatim>\<open>IndexError\<close> after the
  \<^verbatim>\<open>try\<close> statement: the cycle over the sample feed ends with this error, the id of
  \<open>p1\<close> is not written and the later post \<open>p3\<close> is never fetched.
\<close>

theorem render_error_not_caught_counterexample:
  "fst (run_bot six_fields_env ''lemmy.test'' ''bot'' ''pw'' (fresh 0)) = Inl IndexError
   \<and> log_lines (snd (run_bot six_fields_env ''lemmy.test'' ''bot'' ''pw'' (fresh 0))) = []
   \<and> HttpGet ''http://down.test/a''
       \<notin> set (trace (snd (run_bot six_fields_env ''lemmy.test'' ''bot'' ''pw'' (fresh 0))))"
  by (simp add: feed_defs sample_defs run_defs upt_conv_Cons)

lemma process_post_summarized:
  assumes "url p = Some u"
    and "str_int (id' p) \<notin> set processed_posts"
    and "domain_of (tldextract_extract E (clean_url_of u)) \<notin> set blocklist"
    and "requests_get E (clean_url_of u) (world s) = (Inr r, w)"
    and "content_type r = Some ct"
    and "ct \<notin> set media_types"
    and "scrape_html E (text_of E (fix_encoding E r)) = Inr (t, d, b)"
    and "get_summary E b = Inr sd"
  shows "process_post E processed_posts blocklist p s =
     gate E p (str_int (id' p)) (clean_url_of u) t d sd
       (s\<lparr>world := w,
          trace := trace s @
            [Log INFO (SummarizeDomain (domain_of (tldextract_extract E (clean_url_of u)))
                         (clean_url_of u) (ap_id p)),
             HttpGet (clean_url_of u), ScrapeHtml (text_of E (fix_encoding E r)), GetSummary b]\<rparr>)"
proof -
  let ?s1 = "emit (Log INFO (SummarizeDomain (domain_of (tldextract_extract E (clean_url_of u)))
                         (clean_url_of u) (ap_id p))) s"
  have "requests_get E (clean_url_of u) (world ?s1) = (Inr r, w)"
    using assms(4) by (simp add: emit_def)
  from try_block_summarized [OF this assms(5-8)]
  show ?thesis
    unfolding process_post_fetches [OF assms(1-3)] by (simp add: emit_def)
qed

lemma gate_in_band:
  "50 \<le> reduction sd \<Longrightarrow> reduction sd \<le> 96 \<Longrightarrow>
   format (TEMPLATE E) [t, cu, str_int (reduction sd), d, post_body_of sd] = Inr comment \<Longrightarrow>
   gate E p post_id cu t d sd s =
     (Inr (), s\<lparr>posts_log := Some (log_lines s @ [post_id]),
                 trace := trace s @ [Log INFO (WillAddComment (ap_id p) comment)]\<rparr>)"
  by (simp add: gate_def MINIMUM_REDUCTION_THRESHOLD_def MAXIMUM_REDUCTION_THRESHOLD_def
      update_log_def emit_def log_lines_def)

lemma gate_out_of_band:
  "\<not> (50 \<le> reduction sd \<and> reduction sd \<le> 96) \<Longrightarrow>
   gate E p post_id cu t d sd s =
     (Inr (), s\<lparr>posts_log := Some (log_lines s @ [post_id]),
                 trace := trace s @ [Log INFO (Skipped post_id (reduction sd))]\<rparr>)"
  by (auto simp add: gate_def MINIMUM_REDUCTION_THRESHOLD_def MAXIMUM_REDUCTION_THRESHOLD_def
      update_log_def emit_def log_lines_def)

lemma gate_top_words_unused:
  "gate E p post_id cu t d (sd\<lparr>top_words := ws\<rparr>) s = gate E p post_id cu t d sd s"
  by (simp add: gate_def post_body_of_def)

lemma format_fits:
  "fits T (length args) \<Longrightarrow> \<exists>comment. format T args = Inr comment"
proof (induction T)
  case Nil
  show ?case by simp
next
  case (Cons x T)
  show ?case
  proof (cases x)
    case (Text str)
    with Cons show ?thesis by auto
  next
    case (Field i)
    with Cons show ?thesis by auto
  qed
qed

text \<open>
  Claim C4, as the code has it. Take a template whose fields are all among the five
  arguments of \<^verbatim>\<open>TEMPLATE.format\<close>. For a post that was fetched, scraped and summarized
  with reduction \<open>r\<close>, the comment (the template filled with title, URL, reduction, date
  and quoted sentences) is rendered exactly when \<open>50 \<le> r \<le> 96\<close>; it is written to the
  log line \<^verbatim>\<open>Will add new comment\<close> and not sent, since the call that would create it on
  the platform is commented out: no operation of the platform is invoked. Outside the band
  no comment is produced and the reduction is logged. In both cases the loop body ends
  normally and the post id is written to the processed store.
\<close>

theorem reduction_gate:
  assumes "url p = Some u"
    and "str_int (id' p) \<notin> set processed_posts"
    and "domain_of (tldextract_extract E (clean_url_of u)) \<notin> set blocklist"
    and "requests_get E (clean_url_of u) (world s) = (Inr r, w)"
    and "content_type r = Some ct"
    and "ct \<notin> set media_types"
    and "scrape_html E (text_of E (fix_encoding E r)) = Inr (t, d, b)"
    and "get_summary E b = Inr sd"
    and "fits (TEMPLATE E) 5"
  shows "\<exists>comment.
      format (TEMPLATE E) [t, clean_url_of u, str_int (reduction sd), d, post_body_of sd] = Inr comment
    \<and> fst (process_post E processed_posts blocklist p s) = Inr ()
    \<and> comments (trace (snd (process_post E processed_posts blocklist p s)))
        = comments (trace s) @ (if 50 \<le> reduction sd \<and> reduction sd \<le> 96 then [comment] else [])
    \<and> last (trace (snd (process_post E processed_posts blocklist p s)))
        = Log INFO (if 50 \<le> reduction sd \<and> reduction sd \<le> 96
                    then WillAddComment (ap_id p) comment
                    else Skipped (str_int (id' p)) (reduction sd))
    \<and> log_lines (snd (process_post E processed_posts blocklist p s))
        = log_lines s @ [str_int (id' p)]
    \<and> invocations (trace (snd (process_post E processed_posts blocklist p s)))
        = invocations (trace s)"
proof -
  have "length [t, clean_url_of u, str_int (reduction sd), d, post_body_of sd] = 5"
    by simp
  with assms(9)
  have "fits (TEMPLATE E) (length [t, clean_url_of u, str_int (reduction sd), d, post_body_of sd])"
    by (simp only:)
  then obtain comment where
    c: "format (TEMPLATE E) [t, clean_url_of u, str_int (reduction sd), d, post_body_of sd] = Inr comment"
    using format_fits by blast
  have "fst (process_post E processed_posts blocklist p s) = Inr ()
    \<and> comments (trace (snd (process_post E processed_posts blocklist p s)))
        = comments (trace s) @ (if 50 \<le> reduction sd \<and> reduction sd \<le> 96 then [comment] else [])
    \<and> last (trace (snd (process_post E processed_posts blocklist p s)))
        = Log INFO (if 50 \<le> reduction sd \<and> reduction sd \<le> 96
                    then WillAddComment (ap_id p) comment
                    else Skipped (str_int (id' p)) (reduction sd))
    \<and> log_lines (snd (process_post E processed_posts blocklist p s))
        = log_lines s @ [str_int (id' p)]
    \<and> invocations (trace (snd (process_post E processed_posts blocklist p s)))
        = invocations (trace s)"
  proof (cases "50 \<le> reduction sd \<and> reduction sd \<le> 96")
    case True
    with c show ?thesis
      unfolding process_post_summarized [OF assms(1-8)]
      by (simp add: gate_in_band comments_append invocations_def log_lines_def)
  next
    case False
    then show ?thesis
      unfolding process_post_summarized [OF assms(1-8)]
      by (simp add: gate_out_of_band comments_append invocations_def log_lines_def)
  qed
  with c show ?thesis
    by blast
qed

lemma clean_p1: "clean_url_of ''http://amp.example.com/a'' = ''http://example.com/a''"
  by (simp add: clean_url_of_def startswith_def)

lemma url_p1: "url p1 = Some ''http://amp.example.com/a''"
  by (simp add: p1_def)

lemma id_p1: "str_int (id' p1) \<notin> set []"
  by simp

lemma domain_p1:
  "domain_of (tldextract_extract (sample_env x) (clean_url_of ''http://amp.example.com/a''))
     \<notin> set [''imgur.com'']"
  by (simp add: clean_p1 sample_env_def sample_extract_def domain_of_def)

lemma get_p1:
  "requests_get (sample_env x) (clean_url_of ''http://amp.example.com/a'') (world started) =
     (Inr \<lparr>content_type = Some ''text/html'', content = ''<p>'', encoding = Some ''utf-8''\<rparr>, 1)"
  by (simp add: clean_p1 sample_env_def sample_get_def started_def)

lemma type_p1:
  "content_type \<lparr>content_type = Some ''text/html'', content = ''<p>'', encoding = Some ''utf-8''\<rparr>
     = Some ''text/html''"
  by simp

lemma html_not_media: "''text/html'' \<notin> set media_types"
  by (simp add: media_types_def)

lemma scrape_p1:
  "scrape_html (sample_env x) (text_of (sample_env x) (fix_encoding (sample_env x)
       \<lparr>content_type = Some ''text/html'', content = ''<p>'', encoding = Some ''utf-8''\<rparr>))
     = Inr (''T'', ''D'', ''B'')"
  by (simp add: sample_env_def sample_scrape_def)

lemma summary_p1:
  "get_summary (sample_env x) ''B'' =
     Inr \<lparr>reduction = x, top_sentences = [''S1'', ''S2''], top_words = [''foo'', ''bar'']\<rparr>"
  by (simp add: sample_env_def sample_summary_def)

lemma body_p1:
  "post_body_of \<lparr>reduction = x, top_sentences = [''S1'', ''S2''], top_words = [''foo'', ''bar'']\<rparr>
     = ''> S1\<newline>\<newline>> S2''"
  by (simp add: post_body_of_def newline_def)

lemma format_p1:
  "format (TEMPLATE (sample_env x)) [''T'', ''http://example.com/a'', n, ''D'', ''> S1\<newline>\<newline>> S2'']
     = Inr (''T http://example.com/a '' @ n @ '' D\<newline>> S1\<newline>\<newline>> S2'')"
  by (simp add: sample_env_def sample_template_def newline_def)

lemmas p1_article = url_p1 id_p1 domain_p1 get_p1 type_p1 html_not_media scrape_p1 summary_p1

text \<open>
  The theorem of C4 at the reductions 50 and 96, which give a comment, and 49 and 97,
  which give none.
\<close>

theorem reduction_gate_witness:
  "fits (TEMPLATE (sample_env 50)) 5
   \<and> comments (trace (snd (process_post (sample_env 50) [] [''imgur.com''] p1 started)))
      = [''T http://example.com/a 50 D\<newline>> S1\<newline>\<newline>> S2'']
   \<and> comments (trace (snd (process_post (sample_env 96) [] [''imgur.com''] p1 started)))
      = [''T http://example.com/a 96 D\<newline>> S1\<newline>\<newline>> S2'']
   \<and> comments (trace (snd (process_post (sample_env 49) [] [''imgur.com''] p1 started))) = []
   \<and> comments (trace (snd (process_post (sample_env 97) [] [''imgur.com''] p1 started))) = []
   \<and> last (trace (snd (process_post (sample_env 49) [] [''imgur.com''] p1 started)))
      = Log INFO (Skipped ''1'' 49)
   \<and> last (trace (snd (process_post (sample_env 97) [] [''imgur.com''] p1 started)))
      = Log INFO (Skipped ''1'' 97)
   \<and> log_lines (snd (process_post (sample_env 50) [] [''imgur.com''] p1 started)) = [''1'']
   \<and> log_lines (snd (process_post (sample_env 97) [] [''imgur.com''] p1 started)) = [''1'']"
proof -
  have f: "fits (TEMPLATE (sample_env x)) 5" for x
    by (simp add: sample_env_def sample_template_def)
  have s: "str_int 50 = ''50''" "str_int 96 = ''96''" "str_int (id' p1) = ''1''"
    by (simp_all add: str_int_def p1_def)
  have l: "log_lines started = []" "trace started = []"
    by (simp_all add: log_lines_def started_def)
  show ?thesis
    using reduction_gate [OF p1_article f, of 50] reduction_gate [OF p1_article f, of 96]
      reduction_gate [OF p1_article f, of 49] reduction_gate [OF p1_article f, of 97]
    by (auto simp add: s l f clean_p1 body_p1 format_p1)
qed

text \<open>
  Claim C4 as written has the comment published at reduction 50. These are all the effects
  of the loop body on \<open>p1\<close> at reduction 50: the comment is logged, and no operation of the
  platform is invoked.
\<close>

theorem comment_not_sent_counterexample:
  "trace (snd (process_post (sample_env 50) [] [''imgur.com''] p1 started)) =
     [Log INFO (SummarizeDomain ''example.com'' ''http://example.com/a'' ''ap1''),
      HttpGet ''http://example.com/a'', ScrapeHtml ''<p>'', GetSummary ''B'',
      Log INFO (WillAddComment ''ap1'' ''T http://example.com/a 50 D\<newline>> S1\<newline>\<newline>> S2'')]
   \<and> invocations (trace (snd (process_post (sample_env 50) [] [''imgur.com''] p1 started))) = []"
  by (simp add: sample_defs run_defs invocations_def newline_def)


lemma contains_prefix: "contains needle (needle @ rest)"
proof (cases "needle @ rest")
  case Nil
  then show ?thesis by simp
next
  case (Cons a list)
  have "startswith (needle @ rest) needle"
    by (simp add: startswith_def)
  then show ?thesis
    unfolding Cons by simp
qed

lemma contains_append_right: "contains needle b \<Longrightarrow> contains needle (a @ b)"
  by (induction a) auto

lemma format_contains_field:
  "format T args = Inr c \<Longrightarrow> Field i \<in> set T \<Longrightarrow> contains (args ! i) c"
proof (induction T arbitrary: c)
  case Nil
  then show ?case by simp
next
  case (Cons x T)
  show ?case
  proof (cases x)
    case (Text t)
    with Cons.prems obtain r where r: "format T args = Inr r" and c: "c = t @ r"
      by (auto split: sum.splits)
    from Cons.prems Text have "Field i \<in> set T" by simp
    with Cons.IH r have "contains (args ! i) r" by blast
    then show ?thesis
      unfolding c by (rule contains_append_right)
  next
    case (Field j)
    with Cons.prems obtain r where r: "format T args = Inr r" and c: "c = args ! j @ r"
      by (auto split: sum.splits if_splits)
    show ?thesis
    proof (cases "j = i")
      case True
      then show ?thesis
        unfolding c by (simp add: contains_prefix)
    next
      case False
      with Cons.prems Field have "Field i \<in> set T" by simp
      with Cons.IH r have "contains (args ! i) r" by blast
      then show ?thesis
        unfolding c by (rule contains_append_right)
    qed
  qed
qed

text \<open>
  Claim C3, as the code has it. For a gated-in post whose summary has the top sentences
  S1, S2 and the top words foo, bar, and a template that has the fifth field, the comment
  contains the two sentences, each on its own block-quoted line, joined by a blank line.
  The ranked word list \<^verbatim>\<open>foo^#1 bar^#2 \<close> is built as the string \<^verbatim>\<open>top_words\<close>, but it is
  not among the five arguments of the template: the comment is the same whatever the top
  words are.
\<close>

theorem comment_quotes_sentences:
  assumes "url p = Some u"
    and "str_int (id' p) \<notin> set processed_posts"
    and "domain_of (tldextract_extract E (clean_url_of u)) \<notin> set blocklist"
    and "requests_get E (clean_url_of u) (world s) = (Inr r, w)"
    and "content_type r = Some ct"
    and "ct \<notin> set media_types"
    and "scrape_html E (text_of E (fix_encoding E r)) = Inr (t, d, b)"
    and "get_summary E b = Inr sd"
    and "50 \<le> reduction sd \<and> reduction sd \<le> 96 \<longrightarrow>
         format (TEMPLATE E) [t, clean_url_of u, str_int (reduction sd), d, post_body_of sd]
           = Inr comment"
    and "50 \<le> reduction sd" and "reduction sd \<le> 96"
    and "top_sentences sd = [''S1'', ''S2'']"
    and "top_words sd = [''foo'', ''bar'']"
    and "Field 4 \<in> set (TEMPLATE E)"
  shows "comments (trace (snd (process_post E processed_posts blocklist p s)))
        = comments (trace s) @ [comment]
    \<and> contains ''> S1\<newline>\<newline>> S2'' comment
    \<and> rank_words 0 (top_words sd) [] = ''foo^#1 bar^#2 ''
    \<and> (\<forall>ws s2. gate E p (str_int (id' p)) (clean_url_of u) t d (sd\<lparr>top_words := ws\<rparr>) s2
                 = gate E p (str_int (id' p)) (clean_url_of u) t d sd s2)"
proof -
  have fmt: "format (TEMPLATE E) [t, clean_url_of u, str_int (reduction sd), d, post_body_of sd]
           = Inr comment"
    using assms(9-11) by blast
  have body: "post_body_of sd = ''> S1\<newline>\<newline>> S2''"
    by (simp add: post_body_of_def assms(12) newline_def)
  have "contains ([t, clean_url_of u, str_int (reduction sd), d, post_body_of sd] ! 4) comment"
    using fmt assms(14) by (rule format_contains_field)
  then have quoted: "contains ''> S1\<newline>\<newline>> S2'' comment"
    by (simp add: body)
  have band: "50 \<le> reduction sd \<and> reduction sd \<le> 96"
    using assms(10,11) by simp
  have "comments (trace (snd (process_post E processed_posts blocklist p s)))
        = comments (trace s) @ [comment]"
    unfolding process_post_summarized [OF assms(1-8)]
    using band fmt by (simp add: gate_in_band comments_append)
  moreover have "rank_words 0 (top_words sd) [] = ''foo^#1 bar^#2 ''"
    by (simp add: assms(13))
  ultimately show ?thesis
    using quoted by (simp add: gate_top_words_unused)
qed

text \<open>The theorem of C3 at the end-to-end scenario: post \<open>p1\<close>, reduction 75.\<close>

theorem comment_quotes_sentences_witness:
  "comments (trace (snd (process_post (sample_env 75) [] [''imgur.com''] p1 started)))
      = [''T http://example.com/a 75 D\<newline>> S1\<newline>\<newline>> S2'']
   \<and> contains ''> S1\<newline>\<newline>> S2'' ''T http://example.com/a 75 D\<newline>> S1\<newline>\<newline>> S2''
   \<and> Field 4 \<in> set (TEMPLATE (sample_env 75))"
proof -
  let ?sd = "\<lparr>reduction = 75, top_sentences = [''S1'', ''S2''], top_words = [''foo'', ''bar'']\<rparr>"
  have f: "50 \<le> reduction ?sd \<and> reduction ?sd \<le> 96 \<longrightarrow>
      format (TEMPLATE (sample_env 75))
        [''T'', clean_url_of ''http://amp.example.com/a'', str_int (reduction ?sd),
         ''D'', post_body_of ?sd]
      = Inr (''T http://example.com/a '' @ str_int 75 @ '' D\<newline>> S1\<newline>\<newline>> S2'')"
    by (simp add: clean_p1 body_p1 format_p1)
  have b: "50 \<le> reduction ?sd" "reduction ?sd \<le> 96"
    "top_sentences ?sd = [''S1'', ''S2'']" "top_words ?sd = [''foo'', ''bar'']"
    by simp_all
  have t: "Field 4 \<in> set (TEMPLATE (sample_env 75))"
    by (simp add: sample_env_def sample_template_def)
  have s: "str_int 75 = ''75''" "trace started = []"
    by (simp_all add: str_int_def started_def)
  show ?thesis
    using comment_quotes_sentences [OF p1_article f b t] t
    by (simp add: s)
qed

text \<open>
  Claim C3 as written has the ranked word list in the comment. The cycle over the sample
  feed is the end-to-end scenario: post \<open>p1\<close> with reduction 75, the top sentences S1, S2
  and the top words foo, bar. Its one comment does not contain the ranked word list.
\<close>

theorem comment_lacks_word_list_counterexample:
  "comments (trace (snd (run_bot feed_env ''lemmy.test'' ''bot'' ''pw'' (fresh 0))))
      = [''T http://example.com/a 75 D\<newline>> S1\<newline>\<newline>> S2'']
   \<and> \<not> contains ''foo^#1 bar^#2 '' ''T http://example.com/a 75 D\<newline>> S1\<newline>\<newline>> S2''
   \<and> get_summary feed_env ''B''
       = Inr \<lparr>reduction = 75, top_sentences = [''S1'', ''S2''], top_words = [''foo'', ''bar'']\<rparr>"
  by (simp add: feed_defs sample_defs run_defs upt_conv_Cons newline_def)

section \<open>The URL normalization and the encoding correction\<close>

text \<open>
  Claim C7 on the code. The claim has only an \<^verbatim>\<open>amp.\<close> subdomain prefix stripped before
  blocklist matching, the rest of the URL left intact, and the blocklist entries matching
  regardless of subdomain. \<^verbatim>\<open>replace("amp.", "")\<close> deletes \<^verbatim>\<open>amp.\<close> wherever it stands.
  The post \<open>p4\<close> is on the subdomain \<^verbatim>\<open>camp\<close> of \<^verbatim>\<open>example.com\<close>, and \<^verbatim>\<open>example.com\<close>
  is in the blocklist. The registrable domain of its URL is \<^verbatim>\<open>example.com\<close>, but the
  normalized URL is \<^verbatim>\<open>http://cexample.com/a\<close>, the blocklist key is \<^verbatim>\<open>cexample.com\<close>,
  and the loop body fetches that URL and writes the id to the store. The AMP mirror \<open>p1\<close>
  of the same host is matched and only logged. In two more URLs \<^verbatim>\<open>amp.\<close> is no subdomain
  prefix, and the path of the first and the host of the second are changed.
\<close>

theorem amp_stripped_inside_label:
  "url p4 = Some ''http://camp.example.com/a''
   \<and> domain_of (tldextract_extract (sample_env 75) ''http://camp.example.com/a'') = ''example.com''
   \<and> clean_url_of ''http://camp.example.com/a'' = ''http://cexample.com/a''
   \<and> domain_of (tldextract_extract (sample_env 75) (clean_url_of ''http://camp.example.com/a''))
       = ''cexample.com''
   \<and> process_post (sample_env 75) [] [''example.com''] p4 started =
       (Inr (),
        \<lparr>world = 1, posts_log = Some [''4''],
         trace = [Log INFO (SummarizeDomain ''cexample.com'' ''http://cexample.com/a'' ''ap4''),
                  HttpGet ''http://cexample.com/a'',
                  Log ERROR (FailedToProcess ''4'' ''ap4'' ''cexample.com''
                               (Raised ''ConnectionError''))]\<rparr>)
   \<and> process_post (sample_env 75) [] [''example.com''] p1 started =
       (Inr (),
        \<lparr>world = 0, posts_log = Some [],
         trace = [Log DEBUG (BlocklistDomain ''example.com'' ''http://example.com/a'' ''ap1'')]\<rparr>)
   \<and> clean_url_of ''http://example.com/champ.html'' = ''http://example.com/chhtml''
   \<and> clean_url_of ''http://www.stamp.com/'' = ''http://www.stcom/''"
  by (simp add: sample_defs run_defs)

text \<open>
  Claim C9. After the response passed the content-type filter, its encoding is corrected:
  when the decoded text, in lower case, contains \<^verbatim>\<open>iso-8859-1\<close>, the encoding becomes
  \<^verbatim>\<open>iso-8859-1\<close>; otherwise, when the declared encoding is \<^verbatim>\<open>ISO-8859-1\<close>, it becomes
  \<^verbatim>\<open>utf-8\<close>; in all other cases it is left unchanged. The text handed to the scraper
  is the body decoded under the corrected encoding.
\<close>

theorem encoding_correction:
  "fix_encoding E r =
     r\<lparr>encoding :=
         (if contains ''iso-8859-1'' (lower (text_of E r)) then Some ''iso-8859-1''
          else if encoding r = Some ''ISO-8859-1'' then Some ''utf-8''
          else encoding r)\<rparr>
   \<and> text_of E (fix_encoding E r) = decode E (encoding (fix_encoding E r)) (content r)
   \<and> (requests_get E cu (world s) = (Inr r, w) \<and> content_type r = Some ct
        \<and> ct \<notin> set media_types \<longrightarrow>
        (\<exists>evs. trace (snd (try_block E post_id cu s)) =
           trace s @ [HttpGet cu, ScrapeHtml (text_of E (fix_encoding E r))] @ evs))"
proof -
  have a: "fix_encoding E r =
     r\<lparr>encoding :=
         (if contains ''iso-8859-1'' (lower (text_of E r)) then Some ''iso-8859-1''
          else if encoding r = Some ''ISO-8859-1'' then Some ''utf-8''
          else encoding r)\<rparr>"
    by (simp add: fix_encoding_def)
  have b: "text_of E (fix_encoding E r) = decode E (encoding (fix_encoding E r)) (content r)"
    by (simp add: text_of_def fix_encoding_def)
  have c: "\<exists>evs. trace (snd (try_block E post_id cu s)) =
           trace s @ [HttpGet cu, ScrapeHtml (text_of E (fix_encoding E r))] @ evs"
    if "requests_get E cu (world s) = (Inr r, w)" "content_type r = Some ct" "ct \<notin> set media_types"
    using that by (auto simp add: try_block_def emit_def Let_def split: sum.splits)
  from a b c show ?thesis
    by blast
qed


text \<open>
  The theorem of C9 at the three sample responses and at the fetch of
  \<^verbatim>\<open>http://example.com/a\<close>.
\<close>

theorem encoding_correction_witness:
  "encoding (fix_encoding (sample_env 75) marked_response) = Some ''iso-8859-1''
   \<and> encoding (fix_encoding (sample_env 75) latin1_response) = Some ''utf-8''
   \<and> fix_encoding (sample_env 75) lower_case_response = lower_case_response
   \<and> (\<exists>evs. trace (snd (try_block (sample_env 75) ''1'' ''http://example.com/a'' started)) =
         [HttpGet ''http://example.com/a'', ScrapeHtml ''<p>''] @ evs)"
proof -
  let ?r = "\<lparr>content_type = Some ''text/html'', content = ''<p>'', encoding = Some ''utf-8''\<rparr>"
  have t: "text_of (sample_env 75) marked_response = ''charset=ISO-8859-1''"
    "text_of (sample_env 75) latin1_response = ''<p>''"
    "text_of (sample_env 75) lower_case_response = ''<p>''"
    by (simp_all add: text_of_def sample_env_def sample_decode_def marked_response_def
        latin1_response_def lower_case_response_def)
  have l: "lower ''charset=ISO-8859-1'' = ''charset=iso-8859-1''" "lower ''<p>'' = ''<p>''"
    by (simp_all add: lower_def lower_char_def)
  have g: "requests_get (sample_env 75) ''http://example.com/a'' (world started) = (Inr ?r, 1)
      \<and> content_type ?r = Some ''text/html'' \<and> ''text/html'' \<notin> set media_types"
    by (simp add: sample_env_def sample_get_def started_def media_types_def)
  have x: "text_of (sample_env 75) (fix_encoding (sample_env 75) ?r) = ''<p>''"
    by (simp add: text_of_def fix_encoding_def sample_env_def sample_decode_def)
  from encoding_correction [of "sample_env 75" ?r "''http://example.com/a''" started 1 "''text/html''" "''1''"] g
  have "\<exists>evs. trace (snd (try_block (sample_env 75) ''1'' ''http://example.com/a'' started)) =
         trace started @ [HttpGet ''http://example.com/a'',
            ScrapeHtml (text_of (sample_env 75) (fix_encoding (sample_env 75) ?r))] @ evs"
    by blast
  then have pipeline: "\<exists>evs. trace (snd (try_block (sample_env 75) ''1'' ''http://example.com/a'' started)) =
         [HttpGet ''http://example.com/a'', ScrapeHtml ''<p>''] @ evs"
    by (simp add: x started_def)
  have e: "encoding latin1_response = Some ''ISO-8859-1''"
    "encoding lower_case_response = Some ''iso-8859-1''"
    by (simp_all add: latin1_response_def lower_case_response_def)
  have k1: "contains ''iso-8859-1'' (lower (text_of (sample_env 75) marked_response)) = True"
    by (simp add: t l startswith_def)
  have k2: "contains ''iso-8859-1'' (lower (text_of (sample_env 75) latin1_response)) = False"
    by (simp add: t l startswith_def)
  have k3: "contains ''iso-8859-1'' (lower (text_of (sample_env 75) lower_case_response)) = False"
    by (simp add: t l startswith_def)
  have m1: "fix_encoding (sample_env 75) marked_response
      = marked_response\<lparr>encoding := Some ''iso-8859-1''\<rparr>"
    using encoding_correction [of "sample_env 75" marked_response, THEN conjunct1]
    unfolding k1 by simp
  have m2: "fix_encoding (sample_env 75) latin1_response
      = latin1_response\<lparr>encoding := Some ''utf-8''\<rparr>"
    using encoding_correction [of "sample_env 75" latin1_response, THEN conjunct1]
    unfolding k2 e by simp
  have m3: "fix_encoding (sample_env 75) lower_case_response
      = lower_case_response\<lparr>encoding := Some ''iso-8859-1''\<rparr>"
    using encoding_correction [of "sample_env 75" lower_case_response, THEN conjunct1]
    unfolding k3 e by simp
  have m4: "lower_case_response\<lparr>encoding := Some ''iso-8859-1''\<rparr> = lower_case_response"
    by (simp add: lower_case_response_def)
  from pipeline show ?thesis
    by (simp add: m1 m2 m3 m4)
qed


end
